theory Spec2Isabelle
  imports Complex_Main "HOL-Library.Multiset" "HOL-Library.Sublist"
begin

section \<open>Python values, library functions and exceptions\<close>

text \<open>
  The model artifact manager of the repository lives in \<^verbatim>\<open>snownlp_model_utils.py\<close>
  (validation, deployment, restore) and in the classes \<^verbatim>\<open>ModelManager\<close> and
  \<^verbatim>\<open>SnowNLPTrainerGUI\<close> of the desktop tool (catalog, sandboxed evaluation, ranking).
  Paths and file contents are byte strings.
\<close>

type_synonym path = string
type_synonym bytes = string

text \<open>
  The object graph \<^verbatim>\<open>marshal.loads\<close> can return. A dict is the association list of its
  items; a key is looked up with \<open>map_of\<close>.
\<close>

datatype pyval =
    PNone
  | PBool bool
  | PInt int
  | PStr string
  | PBytes bytes
  | PList "pyval list"
  | PDict "(pyval \<times> pyval) list"

text \<open>
  What the code takes from its runtime: \<^verbatim>\<open>gzip.decompress\<close> (\<open>None\<close> when the call
  raises; the loader drops that exception), \<^verbatim>\<open>marshal.loads\<close> (\<open>Inl m\<close> when the call
  raises an exception \<open>e\<close> with \<^verbatim>\<open>str(e)\<close> = \<open>m\<close>; the text can be empty, as that of the
  \<^verbatim>\<open>MemoryError\<close> CPython raises on an oversized length field),
  \<^verbatim>\<open>sys.version_info[0]\<close>, and the directory of the installed \<^verbatim>\<open>snownlp\<close> package as
  \<^verbatim>\<open>get_snownlp_package_dir\<close> finds it.
\<close>

record env =
  gzip_decompress :: "bytes \<Rightarrow> bytes option"
  marshal_loads :: "bytes \<Rightarrow> string + pyval"
  py_major :: nat
  snownlp_pkg_dir :: "path option"

datatype pyexn =
    FileNotFoundError path
  | PermissionError path
  | SameFileError path path
  | ValueError string
  | MarshalError string
  | ImportError string
  | RuntimeError string

definition repr_path :: "path \<Rightarrow> string" where
  "repr_path p = [CHR 0x27] @ p @ [CHR 0x27]"

text \<open>
  \<^verbatim>\<open>str(e)\<close>. \<open>MarshalError m\<close> is whatever \<^verbatim>\<open>marshal.loads\<close> raised, with its text \<open>m\<close>.
\<close>

fun str_exn :: "pyexn \<Rightarrow> string" where
  "str_exn (FileNotFoundError p) = ''[Errno 2] No such file or directory: '' @ repr_path p"
| "str_exn (PermissionError p) = ''[Errno 13] Permission denied: '' @ repr_path p"
| "str_exn (SameFileError a b) = repr_path a @ '' and '' @ repr_path b @ '' are the same file''"
| "str_exn (ValueError m) = m"
| "str_exn (MarshalError m) = m"
| "str_exn (ImportError m) = ''No module named '' @ repr_path m"
| "str_exn (RuntimeError m) = m"

section \<open>The file store\<close>

text \<open>
  The store maps a path to the bytes of the regular file there. Directories are a
  separate predicate, read by \<^verbatim>\<open>os.path.isdir\<close>; the paths the functions test, create
  and remove name regular files. \<open>readonly p\<close> is the permission of the file at \<open>p\<close>:
  it has no write bit, so opening it for writing raises \<^verbatim>\<open>PermissionError\<close>; a copy
  made by \<^verbatim>\<open>shutil.copy2\<close> and a file moved by \<^verbatim>\<open>os.replace\<close> carry the permission of
  their source. \<open>locked p\<close> is a refusal that does not depend on the file's own
  permission and stays as it is (the directory, an immutable or locked file): nothing
  can be created, overwritten, renamed or deleted at \<open>p\<close>. A primitive that raises
  leaves the store as it was.
\<close>

record world =
  files :: "path \<rightharpoonup> bytes"
  dirs :: "path \<Rightarrow> bool"
  readonly :: "path \<Rightarrow> bool"
  locked :: "path \<Rightarrow> bool"

definition path_exists :: "world \<Rightarrow> path \<Rightarrow> bool" where
  "path_exists w p = (files w p \<noteq> None)"

definition isdir :: "world \<Rightarrow> path \<Rightarrow> bool" where
  "isdir w p = dirs w p"

text \<open>Opening \<open>p\<close> for writing is refused.\<close>

definition denied :: "world \<Rightarrow> path \<Rightarrow> bool" where
  "denied w p = (locked w p \<or> (files w p \<noteq> None \<and> readonly w p))"

text \<open>The file at \<open>p\<close> gets the bytes \<open>b\<close> and the permission \<open>ro\<close>.\<close>

definition put_file :: "world \<Rightarrow> path \<Rightarrow> bytes \<Rightarrow> bool \<Rightarrow> world" where
  "put_file w p b ro = w\<lparr>files := (files w)(p \<mapsto> b), readonly := (readonly w)(p := ro)\<rparr>"

definition delete_file :: "world \<Rightarrow> path \<Rightarrow> world" where
  "delete_file w p = w\<lparr>files := (files w)(p := None)\<rparr>"

text \<open>\<^verbatim>\<open>open(path, "rb").read()\<close>\<close>

definition read_bytes :: "world \<Rightarrow> path \<Rightarrow> pyexn + bytes" where
  "read_bytes w p = (case files w p of None \<Rightarrow> Inl (FileNotFoundError p) | Some b \<Rightarrow> Inr b)"

text \<open>
  \<^verbatim>\<open>shutil.copy2(src, dst)\<close>: \<^verbatim>\<open>copyfile\<close> first refuses a destination that is the source,
  then opens the source, then the destination for writing; \<^verbatim>\<open>copystat\<close> then gives the
  destination the permission bits of the source.
\<close>

definition copy2 :: "world \<Rightarrow> path \<Rightarrow> path \<Rightarrow> pyexn + world" where
  "copy2 w src dst =
     (if src = dst \<and> path_exists w src then Inl (SameFileError src dst)
      else case files w src of
             None \<Rightarrow> Inl (FileNotFoundError src)
           | Some b \<Rightarrow> if denied w dst then Inl (PermissionError dst)
                      else Inr (put_file w dst b (readonly w src)))"

text \<open>
  \<^verbatim>\<open>os.replace(src, dst)\<close>: an atomic rename, which does not open either file, so their
  own permissions do not matter; the file keeps its permission under the new name.
  Renaming a file onto itself does nothing.
\<close>

definition os_replace :: "world \<Rightarrow> path \<Rightarrow> path \<Rightarrow> pyexn + world" where
  "os_replace w src dst =
     (case files w src of
        None \<Rightarrow> Inl (FileNotFoundError src)
      | Some b \<Rightarrow> if src = dst then Inr w
                 else if locked w dst then Inl (PermissionError dst)
                 else if locked w src then Inl (PermissionError src)
                 else Inr (delete_file (put_file w dst b (readonly w src)) src))"

text \<open>\<^verbatim>\<open>os.remove(path)\<close>\<close>

definition os_remove :: "world \<Rightarrow> path \<Rightarrow> pyexn + world" where
  "os_remove w p =
     (case files w p of
        None \<Rightarrow> Inl (FileNotFoundError p)
      | Some b \<Rightarrow> if locked w p then Inl (PermissionError p) else Inr (delete_file w p))"

text \<open>
  \<^verbatim>\<open>os.path.join(a, b)\<close> on POSIX: an absolute \<open>b\<close> replaces \<open>a\<close>; a separator is
  added unless \<open>a\<close> is empty or already ends with one.
\<close>

definition path_join :: "path \<Rightarrow> path \<Rightarrow> path" where
  "path_join a b =
     (if b \<noteq> [] \<and> hd b = CHR ''/'' then b
      else if a = [] \<or> last a = CHR ''/'' then a @ b
      else a @ ''/'' @ b)"

section \<open>ArtifactValidator: \<^verbatim>\<open>_load_marshal_data\<close>, \<^verbatim>\<open>validate_marshal_model_file\<close>\<close>

text \<open>The \<^verbatim>\<open>try: raw = gzip.decompress(raw) except Exception: pass\<close> of the loader.\<close>

definition gunzip_or_raw :: "env \<Rightarrow> bytes \<Rightarrow> bytes" where
  "gunzip_or_raw E raw = (case gzip_decompress E raw of Some r \<Rightarrow> r | None \<Rightarrow> raw)"

text \<open>\<^verbatim>\<open>key in data\<close> and \<^verbatim>\<open>data.get(key)\<close> on the items of a dict.\<close>

definition dict_has :: "(pyval \<times> pyval) list \<Rightarrow> pyval \<Rightarrow> bool" where
  "dict_has kvs k = (map_of kvs k \<noteq> None)"

definition dict_get :: "(pyval \<times> pyval) list \<Rightarrow> pyval \<Rightarrow> pyval" where
  "dict_get kvs k = (case map_of kvs k of None \<Rightarrow> PNone | Some v \<Rightarrow> v)"

fun is_pydict :: "pyval \<Rightarrow> bool" where
  "is_pydict (PDict kvs) = True"
| "is_pydict v = False"

definition load_marshal_data :: "env \<Rightarrow> world \<Rightarrow> path \<Rightarrow> pyexn + pyval" where
  "load_marshal_data E w p =
     (case read_bytes w p of
        Inl e \<Rightarrow> Inl e
      | Inr raw0 \<Rightarrow>
          let raw = gunzip_or_raw E raw0 in
          (case marshal_loads E raw of
             Inl m \<Rightarrow> Inl (MarshalError m)
           | Inr data \<Rightarrow>
               (case data of
                  PDict kvs \<Rightarrow>
                    if \<not> dict_has kvs (PStr ''total'') \<or> \<not> dict_has kvs (PStr ''d'')
                    then Inl (ValueError ''marshal dict missing required keys'')
                    else if \<not> is_pydict (dict_get kvs (PStr ''d''))
                    then Inl (ValueError (''marshal dict['' @ [CHR 0x27] @ ''d'' @ [CHR 0x27] @ ''] is not a dict''))
                    else Inr data
                | _ \<Rightarrow> Inl (ValueError ''marshal data is not a dict''))))"

definition validate_marshal_model_file :: "env \<Rightarrow> world \<Rightarrow> path \<Rightarrow> string option" where
  "validate_marshal_model_file E w p =
     (case load_marshal_data E w p of Inr data \<Rightarrow> None | Inl e \<Rightarrow> Some (str_exn e))"

text \<open>
  The spec's wording of a valid artifact: the bytes at the path, decompressed when they
  decompress, deserialize into a mapping that has both required keys, the nested field
  being a mapping itself.
\<close>

definition spec_valid_artifact :: "env \<Rightarrow> world \<Rightarrow> path \<Rightarrow> bool" where
  "spec_valid_artifact E w p =
     (case files w p of
        None \<Rightarrow> False
      | Some raw \<Rightarrow>
          (case marshal_loads E (case gzip_decompress E raw of Some r \<Rightarrow> r | None \<Rightarrow> raw) of
             Inl m \<Rightarrow> False
           | Inr data \<Rightarrow>
               (case data of
                  PDict kvs \<Rightarrow>
                    PStr ''total'' \<in> fst ` set kvs \<and>
                    (case map_of kvs (PStr ''d'') of None \<Rightarrow> False | Some v \<Rightarrow> is_pydict v)
                | _ \<Rightarrow> False)))"

section \<open>AtomicSwapper: \<^verbatim>\<open>restore_from_backup\<close>, \<^verbatim>\<open>safe_replace_snownlp_model\<close>\<close>

record replace_result =
  success :: bool
  sentiment_dir :: "path option"
  replaced_files :: "string list"
  error :: "string option"

text \<open>Python's truth value of an \<^verbatim>\<open>Optional[str]\<close>: \<^verbatim>\<open>None\<close> and the empty string are false.\<close>

definition truthy :: "string option \<Rightarrow> bool" where
  "truthy r = (case r of None \<Rightarrow> False | Some s \<Rightarrow> s \<noteq> [])"

definition get_snownlp_sentiment_dir :: "env \<Rightarrow> path option" where
  "get_snownlp_sentiment_dir E =
     (case snownlp_pkg_dir E of
        None \<Rightarrow> None
      | Some pkg_dir \<Rightarrow> if pkg_dir = [] then None else Some (path_join pkg_dir ''sentiment''))"

text \<open>
  The paths of a slot: \<^verbatim>\<open>target_path = os.path.join(sentiment_dir, fname)\<close>, the permanent
  backup \<^verbatim>\<open>target_path + ".backup_gui"\<close> and the staged copy \<^verbatim>\<open>target_path + ".tmp_new"\<close>.
\<close>

definition target_path :: "path \<Rightarrow> string \<Rightarrow> path" where
  "target_path dir fname = path_join dir fname"

definition backup_path :: "path \<Rightarrow> string \<Rightarrow> path" where
  "backup_path dir fname = target_path dir fname @ ''.backup_gui''"

definition tmp_path :: "path \<Rightarrow> string \<Rightarrow> path" where
  "tmp_path dir fname = target_path dir fname @ ''.tmp_new''"

text \<open>The file names of the live slots, in the order \<^verbatim>\<open>restore_from_backup\<close> visits them.\<close>

definition slot_names :: "string list" where
  "slot_names = [''sentiment.marshal.3'', ''sentiment.marshal'']"

text \<open>What \<^verbatim>\<open>os.path.join\<close> puts before a relative name.\<close>

definition dir_prefix :: "path \<Rightarrow> path" where
  "dir_prefix a = (if a = [] \<or> last a = CHR ''/'' then a else a @ ''/'')"

text \<open>
  The loop of \<^verbatim>\<open>restore_from_backup\<close> over its two file names. The result carries the
  store, the names restored so far and the exception that ended the loop, if any.
\<close>

fun restore_loop :: "path \<Rightarrow> string list \<Rightarrow> world \<Rightarrow> string list \<Rightarrow> world \<times> string list \<times> pyexn option" where
  "restore_loop dir [] w replaced = (w, replaced, None)"
| "restore_loop dir (fname # rest) w replaced =
     (let target = target_path dir fname;
          backup = backup_path dir fname
      in if path_exists w backup
         then (case copy2 w backup target of
                 Inl e \<Rightarrow> (w, replaced, Some e)
               | Inr w' \<Rightarrow> restore_loop dir rest w' (replaced @ [fname]))
         else restore_loop dir rest w replaced)"

definition restore_from_backup :: "world \<Rightarrow> path \<Rightarrow> world \<times> replace_result" where
  "restore_from_backup w dir =
     (case restore_loop dir slot_names w [] of
        (w', replaced, Some e) \<Rightarrow>
          (w', \<lparr>success = False, sentiment_dir = Some dir, replaced_files = replaced,
                error = Some (str_exn e)\<rparr>)
      | (w', replaced, None) \<Rightarrow>
          if replaced = []
          then (w', \<lparr>success = False, sentiment_dir = Some dir, replaced_files = [],
                     error = Some ''no .backup_gui files found''\<rparr>)
          else (w', \<lparr>success = True, sentiment_dir = Some dir, replaced_files = replaced,
                     error = None\<rparr>))"

definition get_effective_model_filenames :: "env \<Rightarrow> bool \<Rightarrow> string list" where
  "get_effective_model_filenames E replace_legacy_py2_file =
     (let targets = (if py_major E \<ge> 3 then [''sentiment.marshal.3''] else [''sentiment.marshal''])
      in if replace_legacy_py2_file \<and> ''sentiment.marshal'' \<notin> set targets
         then targets @ [''sentiment.marshal'']
         else targets)"

text \<open>
  One pass of the deployment loop for the slot \<open>fname\<close>: the permanent backup, the
  staged copy, its validation and the rename. The store is returned in either case,
  with the exception that left the loop body, if one did.
\<close>

definition replace_one :: "env \<Rightarrow> path \<Rightarrow> path \<Rightarrow> string \<Rightarrow> world \<Rightarrow> world \<times> pyexn option" where
  "replace_one E source_model_file dir fname w =
     (let target = target_path dir fname;
          backup = backup_path dir fname
      in case (if path_exists w target \<and> \<not> path_exists w backup
               then copy2 w target backup else Inr w) of
           Inl e \<Rightarrow> (w, Some e)
         | Inr w1 \<Rightarrow>
             let tmp = tmp_path dir fname in
             (case copy2 w1 source_model_file tmp of
                Inl e \<Rightarrow> (w1, Some e)
              | Inr w2 \<Rightarrow>
                  let tmp_err = validate_marshal_model_file E w2 tmp in
                  if truthy tmp_err
                  then ((case os_remove w2 tmp of Inl e \<Rightarrow> w2 | Inr w3 \<Rightarrow> w3),
                        Some (ValueError (''new model validation failed: '' @ the tmp_err)))
                  else (case os_replace w2 tmp target of
                          Inl e \<Rightarrow> (w2, Some e)
                        | Inr w3 \<Rightarrow> (w3, None))))"

fun replace_loop :: "env \<Rightarrow> path \<Rightarrow> path \<Rightarrow> string list \<Rightarrow> world \<Rightarrow> string list \<Rightarrow> world \<times> string list \<times> pyexn option" where
  "replace_loop E source_model_file dir [] w replaced = (w, replaced, None)"
| "replace_loop E source_model_file dir (fname # rest) w replaced =
     (case replace_one E source_model_file dir fname w of
        (w', Some e) \<Rightarrow> (w', replaced, Some e)
      | (w', None) \<Rightarrow> replace_loop E source_model_file dir rest w' (replaced @ [fname]))"

text \<open>
  \<^verbatim>\<open>safe_replace_snownlp_model\<close> with \<^verbatim>\<open>logger=None\<close>. The handler of the loop calls
  \<^verbatim>\<open>restore_from_backup\<close>, drops its result and returns the failure with the names
  replaced so far.
\<close>

definition safe_replace_snownlp_model :: "env \<Rightarrow> world \<Rightarrow> path \<Rightarrow> path option \<Rightarrow> bool \<Rightarrow> world \<times> replace_result" where
  "safe_replace_snownlp_model E w source_model_file sentiment_dir_arg replace_legacy_py2_file =
     (let sdir = (case sentiment_dir_arg of None \<Rightarrow> get_snownlp_sentiment_dir E | Some d \<Rightarrow> Some d)
      in case sdir of
           None \<Rightarrow>
             (w, \<lparr>success = False, sentiment_dir = sdir, replaced_files = [],
                  error = Some ''snownlp sentiment dir not found''\<rparr>)
         | Some dir \<Rightarrow>
             if dir = [] \<or> \<not> isdir w dir
             then (w, \<lparr>success = False, sentiment_dir = sdir, replaced_files = [],
                       error = Some ''snownlp sentiment dir not found''\<rparr>)
             else if \<not> path_exists w source_model_file
             then (w, \<lparr>success = False, sentiment_dir = sdir, replaced_files = [],
                       error = Some (''source model file not found: '' @ source_model_file)\<rparr>)
             else
               let err = validate_marshal_model_file E w source_model_file in
               if truthy err
               then (w, \<lparr>success = False, sentiment_dir = sdir, replaced_files = [],
                         error = Some (''invalid source model file: '' @ the err)\<rparr>)
               else
                 let targets = get_effective_model_filenames E replace_legacy_py2_file in
                 (case replace_loop E source_model_file dir targets w [] of
                    (w', replaced, None) \<Rightarrow>
                      (w', \<lparr>success = (length replaced > 0), sentiment_dir = sdir,
                            replaced_files = replaced, error = None\<rparr>)
                  | (w', replaced, Some e) \<Rightarrow>
                      (fst (restore_from_backup w' dir),
                       \<lparr>success = False, sentiment_dir = sdir, replaced_files = replaced,
                        error = Some (str_exn e)\<rparr>)))"

text \<open>Deployments one after the other: each request is a source path and the legacy flag.\<close>

fun deploy_all :: "env \<Rightarrow> path \<Rightarrow> world \<Rightarrow> (path \<times> bool) list \<Rightarrow> world" where
  "deploy_all E dir w [] = w"
| "deploy_all E dir w ((src, legacy) # rest) =
     deploy_all E dir (fst (safe_replace_snownlp_model E w src (Some dir) legacy)) rest"

section \<open>ModelCatalog: the class \<^verbatim>\<open>ModelManager\<close>\<close>

text \<open>
  A catalog entry is the dict \<^verbatim>\<open>add_model\<close> builds; its keys are the fields (the key
  \<^verbatim>\<open>notes\<close> is the field \<open>model_notes\<close>). The catalog is a dict from model id to entry,
  kept as the list of its items in insertion order, so \<^verbatim>\<open>len\<close> is the length of the
  list.
\<close>

record model_info =
  path :: path
  name :: string
  created_time :: string
  train_files :: "string list"
  test_files :: "string list"
  train_samples :: int
  test_accuracy :: rat
  neutral_strategy :: string
  model_notes :: string
  file_size :: int

type_synonym catalog = "(string \<times> model_info) list"

text \<open>One key of the dict handed to \<^verbatim>\<open>update_model\<close>, with its new value.\<close>

datatype field_update =
    Set_path path
  | Set_name string
  | Set_created_time string
  | Set_train_files "string list"
  | Set_test_files "string list"
  | Set_train_samples int
  | Set_test_accuracy rat
  | Set_neutral_strategy string
  | Set_notes string
  | Set_file_size int

fun apply_field :: "field_update \<Rightarrow> model_info \<Rightarrow> model_info" where
  "apply_field (Set_path v) info = info\<lparr>path := v\<rparr>"
| "apply_field (Set_name v) info = info\<lparr>name := v\<rparr>"
| "apply_field (Set_created_time v) info = info\<lparr>created_time := v\<rparr>"
| "apply_field (Set_train_files v) info = info\<lparr>train_files := v\<rparr>"
| "apply_field (Set_test_files v) info = info\<lparr>test_files := v\<rparr>"
| "apply_field (Set_train_samples v) info = info\<lparr>train_samples := v\<rparr>"
| "apply_field (Set_test_accuracy v) info = info\<lparr>test_accuracy := v\<rparr>"
| "apply_field (Set_neutral_strategy v) info = info\<lparr>neutral_strategy := v\<rparr>"
| "apply_field (Set_notes v) info = info\<lparr>model_notes := v\<rparr>"
| "apply_field (Set_file_size v) info = info\<lparr>file_size := v\<rparr>"

text \<open>\<^verbatim>\<open>info.update(updates)\<close>\<close>

definition info_update :: "model_info \<Rightarrow> field_update list \<Rightarrow> model_info" where
  "info_update info updates = fold apply_field updates info"

text \<open>\<^verbatim>\<open>d[k] = v\<close>: an existing key keeps its place, a new key goes to the end.\<close>

fun dict_set :: "('k \<times> 'v) list \<Rightarrow> 'k \<Rightarrow> 'v \<Rightarrow> ('k \<times> 'v) list" where
  "dict_set [] k v = [(k, v)]"
| "dict_set ((k', v') # rest) k v =
     (if k' = k then (k, v) # rest else (k', v') # dict_set rest k v)"

text \<open>\<^verbatim>\<open>json.dump\<close> and \<^verbatim>\<open>json.load\<close> on the catalog (\<open>None\<close> when \<^verbatim>\<open>json.load\<close> raises).\<close>

record jsonlib =
  json_dump :: "catalog \<Rightarrow> bytes"
  json_load :: "bytes \<Rightarrow> catalog option"

record model_manager =
  config_file :: path
  models :: catalog

definition load_models :: "jsonlib \<Rightarrow> world \<Rightarrow> path \<Rightarrow> catalog" where
  "load_models J w cfg =
     (case files w cfg of
        None \<Rightarrow> []
      | Some doc \<Rightarrow> (case json_load J doc of None \<Rightarrow> [] | Some m \<Rightarrow> m))"

text \<open>\<^verbatim>\<open>ModelManager.__init__\<close>\<close>

definition new_manager :: "jsonlib \<Rightarrow> world \<Rightarrow> path \<Rightarrow> model_manager" where
  "new_manager J w cfg = \<lparr>config_file = cfg, models = load_models J w cfg\<rparr>"

text \<open>
  \<^verbatim>\<open>save_models\<close>: the document is rewritten whole (a document that did not exist is
  created writable); an exception of \<^verbatim>\<open>open\<close> is printed and dropped.
\<close>

definition save_models :: "jsonlib \<Rightarrow> world \<Rightarrow> model_manager \<Rightarrow> world" where
  "save_models J w mgr =
     (if denied w (config_file mgr) then w
      else put_file w (config_file mgr) (json_dump J (models mgr)) False)"

definition valid_models_of :: "world \<Rightarrow> catalog \<Rightarrow> catalog" where
  "valid_models_of w ms =
     fold (\<lambda>(model_id, info) valid_models.
             if path_exists w (path info) then dict_set valid_models model_id info
             else valid_models) ms []"

definition get_model_list :: "jsonlib \<Rightarrow> world \<Rightarrow> model_manager \<Rightarrow> world \<times> model_manager \<times> catalog" where
  "get_model_list J w mgr =
     (let valid_models = valid_models_of w (models mgr)
      in if length valid_models \<noteq> length (models mgr)
         then (let mgr' = mgr\<lparr>models := valid_models\<rparr>
               in (save_models J w mgr', mgr', valid_models))
         else (w, mgr, valid_models))"

definition update_model :: "jsonlib \<Rightarrow> world \<Rightarrow> model_manager \<Rightarrow> string \<Rightarrow> field_update list \<Rightarrow> world \<times> model_manager" where
  "update_model J w mgr model_id updates =
     (case map_of (models mgr) model_id of
        None \<Rightarrow> (w, mgr)
      | Some info \<Rightarrow>
          let mgr' = mgr\<lparr>models := dict_set (models mgr) model_id (info_update info updates)\<rparr>
          in (save_models J w mgr', mgr'))"

text \<open>
  The spec's wording of a listing: the persisted document is read again and the entries
  whose file exists are returned.
\<close>

definition spec_list :: "jsonlib \<Rightarrow> world \<Rightarrow> model_manager \<Rightarrow> catalog" where
  "spec_list J w mgr =
     filter (\<lambda>(model_id, info). path_exists w (path info)) (load_models J w (config_file mgr))"

section \<open>SandboxedEvaluator: ranking in \<^verbatim>\<open>compare_models_worker\<close> and \<^verbatim>\<open>model_comparison_worker\<close>\<close>

text \<open>
  One collected result of \<^verbatim>\<open>compare_models_worker\<close>. The accuracy is the quotient
  \<^verbatim>\<open>correct / total_processed\<close>, or 0 when nothing was processed; the ranking only
  compares accuracies, so the quotient is kept exact.
\<close>

record cmp_result =
  result_id :: string
  result_name :: string
  accuracy :: rat
  correct :: nat
  total :: nat
  result_created_time :: string
  result_train_files :: "string list"

definition accuracy_of :: "nat \<Rightarrow> nat \<Rightarrow> rat" where
  "accuracy_of c t = (if t > 0 then of_nat c / of_nat t else 0)"

text \<open>
  \<^verbatim>\<open>xs.sort(key=k, reverse=True)\<close>: CPython reverses the list, sorts it by key with its
  stable sort, and reverses the outcome.
\<close>

definition py_sort_reverse :: "('a \<Rightarrow> 'k::linorder) \<Rightarrow> 'a list \<Rightarrow> 'a list" where
  "py_sort_reverse k xs = rev (sort_key k (rev xs))"

definition rank_compare_models :: "cmp_result list \<Rightarrow> cmp_result list" where
  "rank_compare_models results = py_sort_reverse accuracy results"

text \<open>\<^verbatim>\<open>best_model = results[0]\<close> under \<^verbatim>\<open>if results:\<close>\<close>

definition best_model :: "'a list \<Rightarrow> 'a option" where
  "best_model ranked = (case ranked of [] \<Rightarrow> None | r # rest \<Rightarrow> Some r)"

text \<open>
  \<^verbatim>\<open>model_comparison_worker\<close> keeps a dict from file name to result or \<^verbatim>\<open>None\<close>, drops
  the \<^verbatim>\<open>None\<close>s and sorts the pairs the same way.
\<close>

definition rank_model_comparison :: "(string \<times> cmp_result option) list \<Rightarrow> (string \<times> cmp_result) list" where
  "rank_model_comparison results =
     py_sort_reverse (\<lambda>x. accuracy (snd x))
       (concat (map (\<lambda>(nm, data). case data of None \<Rightarrow> [] | Some d \<Rightarrow> [(nm, d)]) results))"

section \<open>SandboxedEvaluator: \<^verbatim>\<open>backup_current_model\<close>, \<^verbatim>\<open>temp_replace_model\<close>, \<^verbatim>\<open>restore_model\<close>, \<^verbatim>\<open>test_model_worker\<close>\<close>

text \<open>\<^verbatim>\<open>s.replace(old, new)\<close>: every occurrence, from the left, without overlap.\<close>

function str_replace :: "string \<Rightarrow> string \<Rightarrow> string \<Rightarrow> string" where
  "str_replace old new s =
     (if old = [] then new @ concat (map (\<lambda>c. c # new) s)
      else if s = [] then []
      else if prefix old s then new @ str_replace old new (drop (length old) s)
      else hd s # str_replace old new (tl s))"
  by pat_completeness auto
termination
  by (relation "measure (\<lambda>(old, new, s). length s)") auto

declare str_replace.simps [simp del]

text \<open>
  \<^verbatim>\<open>import snownlp\<close> and the directory \<^verbatim>\<open>sentiment\<close> beside \<^verbatim>\<open>snownlp.__file__\<close>; the import
  raises when the package is not installed.
\<close>

definition gui_sentiment_dir :: "env \<Rightarrow> pyexn + path" where
  "gui_sentiment_dir E =
     (case snownlp_pkg_dir E of
        None \<Rightarrow> Inl (ImportError ''snownlp'')
      | Some snownlp_dir \<Rightarrow> Inr (path_join snownlp_dir ''sentiment''))"

fun backup_loop :: "path \<Rightarrow> string list \<Rightarrow> world \<Rightarrow> path list \<Rightarrow> world \<times> path list option" where
  "backup_loop dir [] w backup_files = (w, Some backup_files)"
| "backup_loop dir (fname # rest) w backup_files =
     (let fpath = path_join dir fname in
      if path_exists w fpath
      then (let backup_path = fpath @ ''.temp_backup'' in
            case copy2 w fpath backup_path of
              Inl e \<Rightarrow> (w, None)
            | Inr w' \<Rightarrow> backup_loop dir rest w' (backup_files @ [backup_path]))
      else backup_loop dir rest w backup_files)"

text \<open>\<^verbatim>\<open>backup_current_model\<close>: the list of temp backups, or \<^verbatim>\<open>None\<close> after any exception.\<close>

definition backup_current_model :: "env \<Rightarrow> world \<Rightarrow> world \<times> path list option" where
  "backup_current_model E w =
     (case gui_sentiment_dir E of
        Inl e \<Rightarrow> (w, None)
      | Inr dir \<Rightarrow> backup_loop dir [''sentiment.marshal'', ''sentiment.marshal.3''] w [])"

fun copy_to_targets :: "path \<Rightarrow> path list \<Rightarrow> world \<Rightarrow> world \<times> bool" where
  "copy_to_targets model_file [] w = (w, True)"
| "copy_to_targets model_file (target_file # rest) w =
     (case copy2 w model_file target_file of
        Inl e \<Rightarrow> (w, False)
      | Inr w' \<Rightarrow> copy_to_targets model_file rest w')"

definition temp_replace_model :: "env \<Rightarrow> world \<Rightarrow> path \<Rightarrow> world \<times> bool" where
  "temp_replace_model E w model_file =
     (if \<not> path_exists w model_file then (w, False)
      else case gui_sentiment_dir E of
             Inl e \<Rightarrow> (w, False)
           | Inr dir \<Rightarrow>
               let target_files =
                     filter (path_exists w)
                       (map (path_join dir) [''sentiment.marshal'', ''sentiment.marshal.3''])
               in if target_files = [] then (w, False)
                  else copy_to_targets model_file target_files w)"

fun restore_files :: "path list \<Rightarrow> world \<Rightarrow> world" where
  "restore_files [] w = w"
| "restore_files (backup_file # rest) w =
     (if path_exists w backup_file
      then (let original_file = str_replace ''.temp_backup'' [] backup_file in
            case copy2 w backup_file original_file of
              Inl e \<Rightarrow> w
            | Inr w1 \<Rightarrow>
                (case os_remove w1 backup_file of
                   Inl e \<Rightarrow> w1
                 | Inr w2 \<Rightarrow> restore_files rest w2))
      else restore_files rest w)"

text \<open>\<^verbatim>\<open>restore_model\<close>: any exception ends the loop and is logged.\<close>

definition restore_model :: "env \<Rightarrow> world \<Rightarrow> path list \<Rightarrow> world" where
  "restore_model E w backup_files =
     (case gui_sentiment_dir E of
        Inl e \<Rightarrow> w
      | Inr dir \<Rightarrow> restore_files backup_files w)"

text \<open>
  \<^verbatim>\<open>test_model_worker\<close>. \<open>run_basic_test\<close> stands for the body of the \<^verbatim>\<open>try\<close> after the
  swap: the benchmark over the scorer and the writes to the result widget, which read
  the store and either return the accuracy or raise. The result is the store and the
  exception that leaves the worker, if any.
\<close>

definition test_model_worker :: "env \<Rightarrow> (world \<Rightarrow> pyexn + rat) \<Rightarrow> world \<Rightarrow> path \<Rightarrow> world \<times> pyexn option" where
  "test_model_worker E run_basic_test w model_path =
     (let (w1, original_model_backup) = backup_current_model E w;
          (w2, swapped) = temp_replace_model E w1 model_path;
          raised = (if swapped
                    then (case run_basic_test w2 of Inl e \<Rightarrow> Some e | Inr acc \<Rightarrow> None)
                    else None);
          w3 = (case original_model_backup of
                  None \<Rightarrow> w2
                | Some backup_files \<Rightarrow>
                    if backup_files \<noteq> [] then restore_model E w2 backup_files else w2)
      in (w3, raised))"

section \<open>A small runtime and store for the examples\<close>

text \<open>
  The five bytes \<^verbatim>\<open>28 ff ff ff 7f\<close>: the type code of a tuple with the length
  \<^verbatim>\<open>0x7fffffff\<close>, on which CPython's \<^verbatim>\<open>marshal.loads\<close> raises a \<^verbatim>\<open>MemoryError\<close> whose
  text is empty.
\<close>

definition oversized_tuple :: bytes where
  "oversized_tuple = [CHR 0x28, CHR 0xFF, CHR 0xFF, CHR 0xFF, CHR 0x7F]"

text \<open>
  A runtime whose \<^verbatim>\<open>marshal.loads\<close> accepts the bytes that start with \<^verbatim>\<open>model:\<close> as a
  model dict and the bytes \<^verbatim>\<open>seven\<close> as the integer 7, raises with the empty text on
  \<open>oversized_tuple\<close> and with a text on anything else; \<^verbatim>\<open>gzip.decompress\<close> strips the
  mark \<^verbatim>\<open>gz:\<close>. The package sits in \<^verbatim>\<open>/site/snownlp\<close>.
\<close>

definition demo_env :: env where
  "demo_env =
     \<lparr>gzip_decompress = (\<lambda>b. if take 3 b = ''gz:'' then Some (drop 3 b) else None),
      marshal_loads =
        (\<lambda>b. if take 6 b = ''model:''
              then Inr (PDict [(PStr ''total'', PInt 2), (PStr ''d'', PDict [])])
              else if b = ''seven'' then Inr (PInt 7)
              else if b = oversized_tuple then Inl []
              else Inl ''bad marshal data (unknown type code)''),
      py_major = 3,
      snownlp_pkg_dir = Some ''/site/snownlp''\<rparr>"

text \<open>
  A store with the given files, the sentiment directory, and the given paths read-only;
  nothing is locked.
\<close>

definition demo_world :: "(path \<times> bytes) list \<Rightarrow> path list \<Rightarrow> world" where
  "demo_world fs ro =
     \<lparr>files = map_of fs,
      dirs = (\<lambda>p. p = ''/site/snownlp/sentiment''),
      readonly = (\<lambda>p. p \<in> set ro),
      locked = (\<lambda>p. False)\<rparr>"

definition demo_info :: "path \<Rightarrow> model_info" where
  "demo_info p =
     \<lparr>path = p, name = ''m'', created_time = ''2024-01-01T00:00:00'', train_files = [],
      test_files = [], train_samples = 0, test_accuracy = 0, neutral_strategy = ''balance'',
      model_notes = [], file_size = 0\<rparr>"

text \<open>
  A JSON library that knows two documents, the catalog with the model \<^verbatim>\<open>a\<close> and the
  one with \<^verbatim>\<open>a\<close> and \<^verbatim>\<open>b\<close>, and writes a catalog as the list of its ids.
\<close>

definition demo_json :: jsonlib where
  "demo_json =
     \<lparr>json_dump = (\<lambda>m. ''ids:'' @ concat (map (\<lambda>(k, info). k @ '';'') m)),
      json_load =
        (\<lambda>doc. if doc = ''doc-a'' then Some [(''a'', demo_info ''/m/a.marshal'')]
               else if doc = ''doc-ab''
               then Some [(''a'', demo_info ''/m/a.marshal''), (''b'', demo_info ''/m/b.marshal'')]
               else None)\<rparr>"

definition demo_result :: "string \<Rightarrow> nat \<Rightarrow> nat \<Rightarrow> cmp_result" where
  "demo_result n c t =
     \<lparr>result_id = n, result_name = n, accuracy = accuracy_of c t, correct = c, total = t,
      result_created_time = [], result_train_files = []\<rparr>"

text \<open>Two benchmarks: one returns an accuracy, one raises on the first sample.\<close>

definition demo_bench_ok :: "world \<Rightarrow> pyexn + rat" where
  "demo_bench_ok v = Inr 1"


section \<open>Validation\<close>

lemma is_pydict_iff: "is_pydict v \<longleftrightarrow> (\<exists>dv. v = PDict dv)"
  by (cases v) auto

lemma dict_has_iff: "dict_has kvs k \<longleftrightarrow> k \<in> fst ` set kvs"
  by (simp add: dict_has_def map_of_eq_None_iff)

lemma dict_get_is_dict:
  "dict_has kvs k \<and> is_pydict (dict_get kvs k) \<longleftrightarrow> (\<exists>dv. map_of kvs k = Some (PDict dv))"
  by (auto simp: dict_has_def dict_get_def is_pydict_iff split: option.splits)

lemma spec_valid_iff:
  "spec_valid_artifact E w p \<longleftrightarrow>
     (\<exists>raw kvs dv. files w p = Some raw \<and> marshal_loads E (gunzip_or_raw E raw) = Inr (PDict kvs) \<and>
        PStr ''total'' \<in> fst ` set kvs \<and> map_of kvs (PStr ''d'') = Some (PDict dv))"
  by (auto simp: spec_valid_artifact_def gunzip_or_raw_def is_pydict_iff
      split: option.splits sum.splits pyval.splits)

lemma load_ok_iff:
  "(\<exists>data. load_marshal_data E w p = Inr data) \<longleftrightarrow> spec_valid_artifact E w p"
proof (cases "files w p")
  case None
  then show ?thesis
    by (simp add: load_marshal_data_def spec_valid_iff read_bytes_def)
next
  case (Some raw)
  show ?thesis
  proof (cases "marshal_loads E (gunzip_or_raw E raw)")
    case (Inl m)
    with Some show ?thesis
      by (simp add: load_marshal_data_def spec_valid_iff read_bytes_def)
  next
    case data: (Inr data)
    show ?thesis
    proof (cases "\<exists>kvs. data = PDict kvs")
      case False
      with Some data show ?thesis
        by (cases data) (simp_all add: load_marshal_data_def spec_valid_iff read_bytes_def)
    next
      case True
      then obtain kvs where kvs: "data = PDict kvs" by blast
      have "(\<exists>d. load_marshal_data E w p = Inr d) \<longleftrightarrow>
            dict_has kvs (PStr ''total'') \<and>
            (dict_has kvs (PStr ''d'') \<and> is_pydict (dict_get kvs (PStr ''d'')))"
        using Some data kvs by (auto simp: load_marshal_data_def read_bytes_def)
      also have "\<dots> \<longleftrightarrow> PStr ''total'' \<in> fst ` set kvs \<and>
            (\<exists>dv. map_of kvs (PStr ''d'') = Some (PDict dv))"
        using dict_get_is_dict [of kvs "PStr ''d''"] by (simp add: dict_has_iff)
      also have "\<dots> \<longleftrightarrow> spec_valid_artifact E w p"
        using Some data kvs by (simp add: spec_valid_iff)
      finally show ?thesis .
    qed
  qed
qed

lemma load_same_bytes:
  "files w p = Some c \<Longrightarrow> files w' p' = Some c \<Longrightarrow>
   load_marshal_data E w p = load_marshal_data E w' p'"
  by (simp add: load_marshal_data_def read_bytes_def)

lemma validate_valid:
  "spec_valid_artifact E w p \<Longrightarrow> validate_marshal_model_file E w p = None"
  using load_ok_iff [of E w p]
  by (auto simp: validate_marshal_model_file_def split: sum.splits)

lemma spec_valid_exists: "spec_valid_artifact E w p \<Longrightarrow> path_exists w p"
  by (auto simp: spec_valid_iff path_exists_def)





text \<open>The reason can be empty: the validator on the oversized tuple.\<close>

lemma validate_empty_reason:
  "validate_marshal_model_file demo_env (demo_world [(''/m/bad.marshal'', oversized_tuple)] [])
     ''/m/bad.marshal'' = Some []"
  by code_simp

section \<open>Deployment: a source the validator rejects\<close>

lemma rejected_source_touches_nothing:
  assumes "files w source_model_file = None \<or> truthy (validate_marshal_model_file E w source_model_file)"
  shows "fst (safe_replace_snownlp_model E w source_model_file sdir legacy) = w \<and>
         \<not> success (snd (safe_replace_snownlp_model E w source_model_file sdir legacy)) \<and>
         replaced_files (snd (safe_replace_snownlp_model E w source_model_file sdir legacy)) = []"
  using assms
  by (auto simp: safe_replace_snownlp_model_def Let_def path_exists_def split: option.splits)

text \<open>
  C8. \<^verbatim>\<open>safe_replace_snownlp_model\<close> rejects a source before it touches anything when the
  source is missing or the validator's result is true for \<^verbatim>\<open>if err:\<close>
  (\<open>rejected_source_touches_nothing\<close>). The validator returns the empty string when
  \<^verbatim>\<open>marshal.loads\<close> raises an exception without a text, and the empty string is false
  for \<^verbatim>\<open>if err:\<close> and for \<^verbatim>\<open>if tmp_err:\<close>. So a source that fails the structural
  validation in that way is deployed: here the source holds the oversized tuple, it is
  not a valid artifact, the validator returns the empty reason, and the call reports
  success with no error, backs up the live slot and replaces it with the invalid bytes.
\<close>

theorem invalid_source_deployed_on_empty_reason:
  "\<not> spec_valid_artifact demo_env (demo_world [(''/m/bad.marshal'', oversized_tuple), (''/site/snownlp/sentiment/sentiment.marshal.3'', ''model:old'')] []) ''/m/bad.marshal'' \<and>
   validate_marshal_model_file demo_env (demo_world [(''/m/bad.marshal'', oversized_tuple), (''/site/snownlp/sentiment/sentiment.marshal.3'', ''model:old'')] []) ''/m/bad.marshal'' = Some [] \<and>
   success (snd (safe_replace_snownlp_model demo_env (demo_world [(''/m/bad.marshal'', oversized_tuple), (''/site/snownlp/sentiment/sentiment.marshal.3'', ''model:old'')] []) ''/m/bad.marshal'' (Some ''/site/snownlp/sentiment'') False)) \<and>
   error (snd (safe_replace_snownlp_model demo_env (demo_world [(''/m/bad.marshal'', oversized_tuple), (''/site/snownlp/sentiment/sentiment.marshal.3'', ''model:old'')] []) ''/m/bad.marshal'' (Some ''/site/snownlp/sentiment'') False)) = None \<and>
   replaced_files (snd (safe_replace_snownlp_model demo_env (demo_world [(''/m/bad.marshal'', oversized_tuple), (''/site/snownlp/sentiment/sentiment.marshal.3'', ''model:old'')] []) ''/m/bad.marshal'' (Some ''/site/snownlp/sentiment'') False))
     = [''sentiment.marshal.3''] \<and>
   files (demo_world [(''/m/bad.marshal'', oversized_tuple), (''/site/snownlp/sentiment/sentiment.marshal.3'', ''model:old'')] []) (target_path ''/site/snownlp/sentiment'' ''sentiment.marshal.3'') = Some ''model:old'' \<and>
   files (fst (safe_replace_snownlp_model demo_env (demo_world [(''/m/bad.marshal'', oversized_tuple), (''/site/snownlp/sentiment/sentiment.marshal.3'', ''model:old'')] []) ''/m/bad.marshal'' (Some ''/site/snownlp/sentiment'') False))
     (target_path ''/site/snownlp/sentiment'' ''sentiment.marshal.3'') = Some oversized_tuple \<and>
   files (fst (safe_replace_snownlp_model demo_env (demo_world [(''/m/bad.marshal'', oversized_tuple), (''/site/snownlp/sentiment/sentiment.marshal.3'', ''model:old'')] []) ''/m/bad.marshal'' (Some ''/site/snownlp/sentiment'') False))
     (backup_path ''/site/snownlp/sentiment'' ''sentiment.marshal.3'') = Some ''model:old''"
  by code_simp

section \<open>Deployment: paths and one pass of the loop\<close>

lemma path_join_rel: "b = [] \<or> hd b \<noteq> CHR ''/'' \<Longrightarrow> path_join a b = dir_prefix a @ b"
  by (auto simp: path_join_def dir_prefix_def)

lemma slot_paths:
  "target_path d ''sentiment.marshal.3'' = dir_prefix d @ ''sentiment.marshal.3''"
  "target_path d ''sentiment.marshal'' = dir_prefix d @ ''sentiment.marshal''"
  "backup_path d ''sentiment.marshal.3'' = dir_prefix d @ ''sentiment.marshal.3.backup_gui''"
  "backup_path d ''sentiment.marshal'' = dir_prefix d @ ''sentiment.marshal.backup_gui''"
  "tmp_path d ''sentiment.marshal.3'' = dir_prefix d @ ''sentiment.marshal.3.tmp_new''"
  "tmp_path d ''sentiment.marshal'' = dir_prefix d @ ''sentiment.marshal.tmp_new''"
  by (simp_all add: target_path_def backup_path_def tmp_path_def path_join_rel)

lemma files_put [simp]: "files (put_file w p b ro) = (files w)(p \<mapsto> b)"
  and readonly_put [simp]: "readonly (put_file w p b ro) = (readonly w)(p := ro)"
  and locked_put [simp]: "locked (put_file w p b ro) = locked w"
  and dirs_put [simp]: "dirs (put_file w p b ro) = dirs w"
  and files_delete [simp]: "files (delete_file w p) = (files w)(p := None)"
  and readonly_delete [simp]: "readonly (delete_file w p) = readonly w"
  and locked_delete [simp]: "locked (delete_file w p) = locked w"
  and dirs_delete [simp]: "dirs (delete_file w p) = dirs w"
  by (simp_all add: put_file_def delete_file_def)

lemma copy2_Inr:
  "copy2 w s t = Inr w' \<longleftrightarrow>
     (\<exists>b. files w s = Some b \<and> s \<noteq> t \<and> \<not> denied w t \<and> w' = put_file w t b (readonly w s))"
  by (auto simp: copy2_def path_exists_def split: option.splits)

lemma os_replace_Inr:
  "s \<noteq> t \<Longrightarrow> os_replace w s t = Inr w' \<longleftrightarrow>
     (\<exists>b. files w s = Some b \<and> \<not> locked w t \<and> \<not> locked w s \<and>
          w' = delete_file (put_file w t b (readonly w s)) s)"
  by (auto simp: os_replace_def split: option.splits)

lemma os_remove_cases:
  "(case os_remove w p of Inl e \<Rightarrow> w | Inr w3 \<Rightarrow> w3) = w \<or>
   (case os_remove w p of Inl e \<Rightarrow> w | Inr w3 \<Rightarrow> w3) = delete_file w p"
  by (auto simp: os_remove_def split: option.splits)

lemma spec_valid_cong:
  "files w p = files w' p' \<Longrightarrow> spec_valid_artifact E w p = spec_valid_artifact E w' p'"
  by (simp add: spec_valid_artifact_def)

lemma slot_distinct [simp]:
  "target_path d f \<noteq> backup_path d f" "backup_path d f \<noteq> target_path d f"
  "target_path d f \<noteq> tmp_path d f" "tmp_path d f \<noteq> target_path d f"
  "backup_path d f \<noteq> tmp_path d f" "tmp_path d f \<noteq> backup_path d f"
  by (simp_all add: backup_path_def tmp_path_def)

lemmas replace_one_unfold =
  replace_one_def Let_def copy2_Inr os_replace_Inr path_exists_def os_remove_def

lemma replace_one_env:
  "replace_one E src d f w = (w', x) \<Longrightarrow> locked w' = locked w \<and> dirs w' = dirs w"
  by (auto simp: replace_one_unfold split: sum.splits if_splits option.splits)

lemma replace_one_frame:
  "replace_one E src d f w = (w', x) \<Longrightarrow> q \<noteq> target_path d f \<Longrightarrow> q \<noteq> backup_path d f \<Longrightarrow>
   q \<noteq> tmp_path d f \<Longrightarrow> files w' q = files w q"
  by (auto simp: replace_one_unfold split: sum.splits if_splits option.splits)

lemma replace_one_frame_mode:
  "replace_one E src d f w = (w', x) \<Longrightarrow> q \<noteq> target_path d f \<Longrightarrow> q \<noteq> backup_path d f \<Longrightarrow>
   q \<noteq> tmp_path d f \<Longrightarrow> readonly w' q = readonly w q"
  by (auto simp: replace_one_unfold split: sum.splits if_splits option.splits)

lemma replace_one_frame_denied:
  assumes "replace_one E src d f w = (w', x)" "q \<noteq> target_path d f" "q \<noteq> backup_path d f"
    "q \<noteq> tmp_path d f"
  shows "denied w' q = denied w q"
  using replace_one_frame [OF assms] replace_one_frame_mode [OF assms] replace_one_env [OF assms(1)]
  by (simp add: denied_def)

lemma replace_one_backup_kept:
  "replace_one E src d f w = (w', x) \<Longrightarrow> files w (backup_path d f) = Some b \<Longrightarrow>
   files w' (backup_path d f) = Some b"
  by (auto simp: replace_one_unfold split: sum.splits if_splits option.splits)

lemma replace_one_backup_made:
  "replace_one E src d f w = (w', x) \<Longrightarrow> files w (target_path d f) = Some b \<Longrightarrow>
   files w (backup_path d f) = None \<Longrightarrow>
   files w' (backup_path d f) = Some b \<or> (w' = w \<and> x \<noteq> None)"
  by (auto simp: replace_one_unfold split: sum.splits if_splits option.splits)

lemma replace_one_no_backup:
  "replace_one E src d f w = (w', x) \<Longrightarrow> files w (target_path d f) = None \<Longrightarrow>
   files w (backup_path d f) = None \<Longrightarrow> files w' (backup_path d f) = None"
  by (auto simp: replace_one_unfold split: sum.splits if_splits option.splits)

lemma replace_one_failed_target:
  "replace_one E src d f w = (w', Some e) \<Longrightarrow> files w' (target_path d f) = files w (target_path d f)"
  by (auto simp: replace_one_unfold split: sum.splits if_splits option.splits)

lemma replace_one_committed:
  "replace_one E src d f w = (w', None) \<Longrightarrow> files w src = Some c \<Longrightarrow>
   files w' (target_path d f) = Some c \<and> files w' (tmp_path d f) = None \<and>
   \<not> locked w (target_path d f) \<and> src \<noteq> tmp_path d f \<and>
   files w' (backup_path d f) =
     (case files w (backup_path d f) of None \<Rightarrow> files w (target_path d f) | Some b \<Rightarrow> Some b)"
  by (auto simp: replace_one_unfold split: sum.splits if_splits option.splits)


text \<open>
  The validation of the staged copy: when the loader raises on the bytes of the source
  with a text that is not empty, the pass removes the staged copy and raises, and the
  target is as it was.
\<close>

lemma replace_one_rejects_staged:
  assumes "files w src = Some c" "load_marshal_data E w src = Inl e" "str_exn e \<noteq> []"
    "src \<noteq> tmp_path d f" "\<not> denied w (tmp_path d f)" "\<not> denied w (backup_path d f)"
  shows "\<exists>w'. replace_one E src d f w =
            (w', Some (ValueError (''new model validation failed: '' @ str_exn e))) \<and>
     files w' (target_path d f) = files w (target_path d f) \<and> files w' (tmp_path d f) = None"
proof -
  define w1 where "w1 = (if files w (target_path d f) \<noteq> None \<and> files w (backup_path d f) = None
       then put_file w (backup_path d f) (the (files w (target_path d f)))
              (readonly w (target_path d f)) else w)"
  have s1: "(if path_exists w (target_path d f) \<and> \<not> path_exists w (backup_path d f)
               then copy2 w (target_path d f) (backup_path d f) else Inr w) = Inr w1"
    using assms(6) by (auto simp: w1_def path_exists_def copy2_Inr)
  have src1: "files w1 src = Some c"
    using assms(1) by (auto simp: w1_def)
  have t1: "files w1 (tmp_path d f) = files w (tmp_path d f)"
    "readonly w1 (tmp_path d f) = readonly w (tmp_path d f)" "locked w1 = locked w"
    "files w1 (target_path d f) = files w (target_path d f)"
    by (simp_all add: w1_def)
  have nd: "\<not> denied w1 (tmp_path d f)"
    using assms(5) t1 by (simp add: denied_def)
  define w2 where "w2 = put_file w1 (tmp_path d f) c (readonly w1 src)"
  have s2: "copy2 w1 src (tmp_path d f) = Inr w2"
    using src1 assms(4) nd by (simp add: copy2_Inr w2_def)
  have "load_marshal_data E w2 (tmp_path d f) = load_marshal_data E w src"
    using load_same_bytes [of w2 "tmp_path d f" c w src E] assms(1) by (simp add: w2_def)
  then have v: "validate_marshal_model_file E w2 (tmp_path d f) = Some (str_exn e)"
    using assms(2) by (simp add: validate_marshal_model_file_def)
  have s3: "truthy (validate_marshal_model_file E w2 (tmp_path d f))"
    using v assms(3) by (simp add: truthy_def)
  have s4: "os_remove w2 (tmp_path d f) = Inr (delete_file w2 (tmp_path d f))"
    using assms(5) t1 by (simp add: os_remove_def w2_def denied_def)
  have "replace_one E src d f w =
      (delete_file w2 (tmp_path d f), Some (ValueError (''new model validation failed: '' @ str_exn e)))"
    using s1 s2 s3 s4 v by (simp add: replace_one_def Let_def)
  moreover have "files (delete_file w2 (tmp_path d f)) (target_path d f) = files w (target_path d f)"
    "files (delete_file w2 (tmp_path d f)) (tmp_path d f) = None"
    using t1 by (simp_all add: w2_def)
  ultimately show ?thesis by blast
qed

lemma replace_one_succeeds:
  assumes "spec_valid_artifact E w src" "files w src = Some c"
    "src \<noteq> tmp_path d f" "\<not> denied w (tmp_path d f)" "\<not> denied w (target_path d f)"
    "\<not> denied w (backup_path d f)"
  shows "\<exists>w'. replace_one E src d f w = (w', None) \<and>
     files w' = (files w)(backup_path d f :=
                    (case files w (backup_path d f) of None \<Rightarrow> files w (target_path d f) | Some b \<Rightarrow> Some b),
                  tmp_path d f := None, target_path d f \<mapsto> c)"
proof -
  define w1 where "w1 = (if files w (target_path d f) \<noteq> None \<and> files w (backup_path d f) = None
       then put_file w (backup_path d f) (the (files w (target_path d f)))
              (readonly w (target_path d f)) else w)"
  have s1: "(if path_exists w (target_path d f) \<and> \<not> path_exists w (backup_path d f)
               then copy2 w (target_path d f) (backup_path d f) else Inr w) = Inr w1"
    using assms(6) by (auto simp: w1_def path_exists_def copy2_Inr)
  have f1: "files w1 = (files w)(backup_path d f :=
                    (case files w (backup_path d f) of None \<Rightarrow> files w (target_path d f) | Some b \<Rightarrow> Some b))"
    by (auto simp: w1_def fun_eq_iff split: option.splits)
  have d1: "locked w1 = locked w" "readonly w1 (tmp_path d f) = readonly w (tmp_path d f)"
    by (simp_all add: w1_def)
  have src1: "files w1 src = Some c"
    using assms(2) by (auto simp: f1 split: option.splits)
  have nd: "\<not> denied w1 (tmp_path d f)"
    using assms(4) d1 by (simp add: denied_def f1)
  define w2 where "w2 = put_file w1 (tmp_path d f) c (readonly w1 src)"
  have s2: "copy2 w1 src (tmp_path d f) = Inr w2"
    using src1 assms(3) nd by (simp add: copy2_Inr w2_def)
  have "spec_valid_artifact E w2 (tmp_path d f)"
    using assms(1,2) spec_valid_cong [of w2 "tmp_path d f" w src E] by (simp add: w2_def)
  then have s3: "\<not> truthy (validate_marshal_model_file E w2 (tmp_path d f))"
    using validate_valid [of E w2 "tmp_path d f"] by (simp add: truthy_def)
  define w3 where "w3 = delete_file (put_file w2 (target_path d f) c (readonly w2 (tmp_path d f))) (tmp_path d f)"
  have s4: "os_replace w2 (tmp_path d f) (target_path d f) = Inr w3"
    using assms(4,5) d1 by (simp add: os_replace_Inr w2_def w3_def denied_def)
  have r: "replace_one E src d f w = (w3, None)"
    using s1 s2 s3 s4 by (simp add: replace_one_def Let_def)
  have "files w3 = (files w)(backup_path d f :=
                    (case files w (backup_path d f) of None \<Rightarrow> files w (target_path d f) | Some b \<Rightarrow> Some b),
                  tmp_path d f := None, target_path d f \<mapsto> c)"
    by (auto simp: w3_def w2_def f1 fun_eq_iff)
  then show ?thesis using r by blast
qed

lemma in_slot_names: "f \<in> set slot_names \<longleftrightarrow> f = ''sentiment.marshal.3'' \<or> f = ''sentiment.marshal''"
  by (auto simp: slot_names_def)

lemma cross_slot:
  assumes "f \<in> set slot_names" "g \<in> set slot_names" "f \<noteq> g"
  shows "target_path d f \<noteq> target_path d g" "target_path d f \<noteq> backup_path d g"
    "target_path d f \<noteq> tmp_path d g" "backup_path d f \<noteq> target_path d g"
    "backup_path d f \<noteq> backup_path d g" "backup_path d f \<noteq> tmp_path d g"
    "tmp_path d f \<noteq> target_path d g" "tmp_path d f \<noteq> backup_path d g" "tmp_path d f \<noteq> tmp_path d g"
  using assms by (auto simp: in_slot_names slot_paths)


lemma targets_slot_names: "set (get_effective_model_filenames E legacy) \<subseteq> set slot_names"
  by (auto simp: get_effective_model_filenames_def slot_names_def Let_def)

lemma targets_distinct: "distinct (get_effective_model_filenames E legacy)"
  by (auto simp: get_effective_model_filenames_def Let_def)

section \<open>Deployment: restore and the loops\<close>

lemma restore_loop_env:
  "restore_loop d ts w rep = (w', rep', x) \<Longrightarrow> locked w' = locked w \<and> dirs w' = dirs w"
  by (induction d ts w rep rule: restore_loop.induct)
     (auto simp: Let_def copy2_Inr split: if_splits sum.splits)

lemma restore_loop_frame:
  "restore_loop d ts w rep = (w', rep', x) \<Longrightarrow> \<forall>g \<in> set ts. q \<noteq> target_path d g \<Longrightarrow>
   files w' q = files w q"
  by (induction d ts w rep rule: restore_loop.induct)
     (auto simp: Let_def copy2_Inr split: if_splits sum.splits)

lemma restore_loop_no_backup:
  "restore_loop d ts w rep = (w', rep', x) \<Longrightarrow> files w (backup_path d f) = None \<Longrightarrow>
   set ts \<subseteq> set slot_names \<Longrightarrow> f \<in> set slot_names \<Longrightarrow>
   files w' (target_path d f) = files w (target_path d f) \<and> (f \<in> set rep' \<longrightarrow> f \<in> set rep)"
proof (induction d ts w rep rule: restore_loop.induct)
  case (1 dir w replaced)
  then show ?case by simp
next
  case (2 dir fname rest w replaced)
  show ?case
  proof (cases "fname = f")
    case True
    with 2 show ?thesis by (simp add: path_exists_def)
  next
    case False
    have fn: "fname \<in> set slot_names" using 2 by simp
    note cs = cross_slot [OF "2.prems"(4) fn False [symmetric], of dir]
    show ?thesis
    proof (cases "path_exists w (backup_path dir fname)")
      case True
      show ?thesis
      proof (cases "copy2 w (backup_path dir fname) (target_path dir fname)")
        case (Inl e)
        with True "2.prems" show ?thesis by simp
      next
        case (Inr w1)
        then have w1: "files w1 (backup_path dir f) = None"
          "files w1 (target_path dir f) = files w (target_path dir f)"
          using "2.prems"(2) cs by (auto simp: copy2_Inr)
        have "restore_loop dir rest w1 (replaced @ [fname]) = (w', rep', x)"
          using "2.prems"(1) True Inr by simp
        from "2.IH"(1) [OF refl refl True Inr this w1(1)] "2.prems" w1(2) False
        show ?thesis by auto
      qed
    next
      case nb: False
      then have "restore_loop dir rest w replaced = (w', rep', x)"
        using "2.prems"(1) by simp
      from "2.IH"(2) [OF refl refl nb this] "2.prems" show ?thesis by auto
    qed
  qed
qed

lemma replace_one_other_slot:
  assumes "replace_one E src d g w = (w', x)" "g \<in> set slot_names" "f \<in> set slot_names" "f \<noteq> g"
  shows "files w' (target_path d f) = files w (target_path d f)"
    and "files w' (backup_path d f) = files w (backup_path d f)"
  using replace_one_frame [OF assms(1)] cross_slot [OF assms(3,2,4), of d] by auto

lemma replace_one_keeps_backup:
  assumes "replace_one E src d g w = (w', x)" "g \<in> set slot_names" "f \<in> set slot_names"
    "files w (backup_path d f) = Some b"
  shows "files w' (backup_path d f) = Some b"
proof (cases "f = g")
  case True
  with assms show ?thesis using replace_one_backup_kept by blast
next
  case False
  with assms show ?thesis using replace_one_other_slot(2) [OF assms(1,2,3)] by simp
qed

lemma replace_one_inv:
  assumes "replace_one E src d g w = (w', x)" "g \<in> set slot_names" "f \<in> set slot_names"
    "files w (backup_path d f) = Some b \<or>
     (files w (backup_path d f) = None \<and> files w (target_path d f) = Some b)"
  shows "files w' (backup_path d f) = Some b \<or>
     (files w' (backup_path d f) = None \<and> files w' (target_path d f) = Some b)"
proof (cases "f = g")
  case True
  from assms(4) show ?thesis
  proof
    assume "files w (backup_path d f) = Some b"
    then show ?thesis using replace_one_backup_kept assms(1) True by blast
  next
    assume a: "files w (backup_path d f) = None \<and> files w (target_path d f) = Some b"
    then show ?thesis
      using replace_one_backup_made [of E src d f w w' x b] assms(1) True by auto
  qed
next
  case False
  with assms show ?thesis
    using replace_one_other_slot [OF assms(1,2,3)] by simp
qed

lemma replace_loop_env:
  "replace_loop E src d ts w rep = (w', rep', x) \<Longrightarrow> locked w' = locked w \<and> dirs w' = dirs w"
proof (induction ts arbitrary: w rep)
  case Nil
  then show ?case by simp
next
  case (Cons g ts)
  obtain w1 y where s: "replace_one E src d g w = (w1, y)" by (cases "replace_one E src d g w")
  show ?case
  proof (cases y)
    case None
    with Cons s replace_one_env [OF s] show ?thesis by auto
  next
    case (Some e)
    with Cons.prems s replace_one_env [OF s] show ?thesis by auto
  qed
qed

lemma replace_loop_keeps_backup:
  "replace_loop E src d ts w rep = (w', rep', x) \<Longrightarrow> set ts \<subseteq> set slot_names \<Longrightarrow>
   f \<in> set slot_names \<Longrightarrow> files w (backup_path d f) = Some b \<Longrightarrow>
   files w' (backup_path d f) = Some b"
proof (induction ts arbitrary: w rep)
  case Nil
  then show ?case by simp
next
  case (Cons g ts)
  obtain w1 y where s: "replace_one E src d g w = (w1, y)" by (cases "replace_one E src d g w")
  have g: "g \<in> set slot_names" using Cons.prems by simp
  have k: "files w1 (backup_path d f) = Some b"
    using replace_one_keeps_backup [OF s g Cons.prems(3,4)] .
  show ?case
  proof (cases y)
    case None
    with Cons.prems s have "replace_loop E src d ts w1 (rep @ [g]) = (w', rep', x)" by simp
    from Cons.IH [OF this _ Cons.prems(3) k] Cons.prems(2) show ?thesis by simp
  next
    case (Some e)
    with Cons.prems s k show ?thesis by auto
  qed
qed

lemma replace_loop_inv:
  "replace_loop E src d ts w rep = (w', rep', x) \<Longrightarrow> set ts \<subseteq> set slot_names \<Longrightarrow>
   f \<in> set slot_names \<Longrightarrow>
   files w (backup_path d f) = Some b \<or>
     (files w (backup_path d f) = None \<and> files w (target_path d f) = Some b) \<Longrightarrow>
   files w' (backup_path d f) = Some b \<or>
     (files w' (backup_path d f) = None \<and> files w' (target_path d f) = Some b)"
proof (induction ts arbitrary: w rep)
  case Nil
  then show ?case by simp
next
  case (Cons g ts)
  obtain w1 y where s: "replace_one E src d g w = (w1, y)" by (cases "replace_one E src d g w")
  have g: "g \<in> set slot_names" using Cons.prems by simp
  note k = replace_one_inv [OF s g Cons.prems(3,4)]
  show ?case
  proof (cases y)
    case None
    with Cons.prems s have "replace_loop E src d ts w1 (rep @ [g]) = (w', rep', x)" by simp
    from Cons.IH [OF this _ Cons.prems(3) k] Cons.prems(2) show ?thesis by simp
  next
    case (Some e)
    with Cons.prems s k show ?thesis by auto
  qed
qed

lemma replace_loop_committed:
  "replace_loop E src d ts w rep = (w', rep', x) \<Longrightarrow> set ts \<subseteq> set slot_names \<Longrightarrow>
   f \<in> set slot_names \<Longrightarrow> f \<in> set rep' \<Longrightarrow> f \<notin> set rep \<Longrightarrow>
   files w (backup_path d f) = None \<Longrightarrow> files w (target_path d f) = Some b \<Longrightarrow>
   files w' (backup_path d f) = Some b"
proof (induction ts arbitrary: w rep)
  case Nil
  then show ?case by simp
next
  case (Cons g ts)
  obtain w1 y where s: "replace_one E src d g w = (w1, y)" by (cases "replace_one E src d g w")
  have g: "g \<in> set slot_names" using Cons.prems by simp
  have ts: "set ts \<subseteq> set slot_names" using Cons.prems by simp
  show ?case
  proof (cases y)
    case None
    with Cons.prems s have l: "replace_loop E src d ts w1 (rep @ [g]) = (w', rep', x)" by simp
    show ?thesis
    proof (cases "f = g")
      case True
      have "files w1 (backup_path d f) = Some b"
        using replace_one_backup_made [of E src d f w w1 y b] s None True Cons.prems(6,7) by auto
      from replace_loop_keeps_backup [OF l ts Cons.prems(3) this] show ?thesis .
    next
      case False
      have "files w1 (backup_path d f) = None" "files w1 (target_path d f) = Some b"
        using replace_one_other_slot [OF s g Cons.prems(3) False] Cons.prems(6,7) by simp_all
      from Cons.IH [OF l ts Cons.prems(3,4) _ this] False Cons.prems(5) show ?thesis by simp
    qed
  next
    case (Some e)
    with Cons.prems s show ?thesis by auto
  qed
qed

lemma replace_loop_frame:
  "replace_loop E src d ts w rep = (w', rep', x) \<Longrightarrow>
   \<forall>g \<in> set ts. q \<noteq> target_path d g \<and> q \<noteq> backup_path d g \<and> q \<noteq> tmp_path d g \<Longrightarrow>
   files w' q = files w q"
proof (induction ts arbitrary: w rep)
  case Nil
  then show ?case by simp
next
  case (Cons g ts)
  obtain w1 y where s: "replace_one E src d g w = (w1, y)" by (cases "replace_one E src d g w")
  have k: "files w1 q = files w q"
    using replace_one_frame [OF s, of q] Cons.prems(2) by simp
  show ?case
  proof (cases y)
    case None
    with Cons.prems s have "replace_loop E src d ts w1 (rep @ [g]) = (w', rep', x)" by simp
    from Cons.IH [OF this] Cons.prems(2) k show ?thesis by simp
  next
    case (Some e)
    with Cons.prems s k show ?thesis by auto
  qed
qed

lemma replace_one_backup_origin:
  "replace_one E src d f w = (w', x) \<Longrightarrow> files w (backup_path d f) = None \<Longrightarrow>
   files w' (backup_path d f) = None \<or> files w' (backup_path d f) = files w (target_path d f)"
  by (cases "files w (target_path d f)")
     (use replace_one_no_backup [of E src d f w w' x] replace_one_backup_made [of E src d f w w' x] in auto)

lemma replace_loop_backup_origin:
  "replace_loop E src d ts w rep = (w', rep', x) \<Longrightarrow> set ts \<subseteq> set slot_names \<Longrightarrow>
   distinct ts \<Longrightarrow> f \<in> set slot_names \<Longrightarrow> files w (backup_path d f) = None \<Longrightarrow>
   files w' (backup_path d f) = None \<or> files w' (backup_path d f) = files w (target_path d f)"
proof (induction ts arbitrary: w rep)
  case Nil
  then show ?case by simp
next
  case (Cons g ts)
  obtain w1 y where s: "replace_one E src d g w = (w1, y)" by (cases "replace_one E src d g w")
  have g: "g \<in> set slot_names" using Cons.prems by simp
  have ts: "set ts \<subseteq> set slot_names" "distinct ts" using Cons.prems by simp_all
  show ?case
  proof (cases "f = g")
    case True
    note o = replace_one_backup_origin [OF s [folded True] Cons.prems(5)]
    show ?thesis
    proof (cases y)
      case None
      with Cons.prems s have l: "replace_loop E src d ts w1 (rep @ [g]) = (w', rep', x)" by simp
      have "\<forall>h \<in> set ts. backup_path d f \<noteq> target_path d h \<and> backup_path d f \<noteq> backup_path d h \<and>
              backup_path d f \<noteq> tmp_path d h"
      proof
        fix h assume h: "h \<in> set ts"
        then have "f \<noteq> h" using Cons.prems(3) True by auto
        moreover have "h \<in> set slot_names" using h ts by auto
        ultimately show "backup_path d f \<noteq> target_path d h \<and> backup_path d f \<noteq> backup_path d h \<and>
              backup_path d f \<noteq> tmp_path d h"
          using cross_slot [OF Cons.prems(4), of h d] by simp
      qed
      from replace_loop_frame [OF l this] o show ?thesis by simp
    next
      case (Some e)
      with Cons.prems s o show ?thesis by auto
    qed
  next
    case False
    note k = replace_one_other_slot [OF s g Cons.prems(4) False]
    show ?thesis
    proof (cases y)
      case None
      with Cons.prems s have l: "replace_loop E src d ts w1 (rep @ [g]) = (w', rep', x)" by simp
      from Cons.IH [OF l ts Cons.prems(4)] k Cons.prems(5) show ?thesis by simp
    next
      case (Some e)
      with Cons.prems s k show ?thesis by auto
    qed
  qed
qed

lemma restore_keeps_backup:
  assumes "f \<in> set slot_names"
  shows "files (fst (restore_from_backup w d)) (backup_path d f) = files w (backup_path d f)"
proof -
  obtain w' rep x where l: "restore_loop d slot_names w [] = (w', rep, x)"
    by (cases "restore_loop d slot_names w []") auto
  have "\<forall>g \<in> set slot_names. backup_path d f \<noteq> target_path d g"
    using cross_slot(4) [OF assms, of _ d] by (metis slot_distinct(2))
  from restore_loop_frame [OF l this] l show ?thesis
    by (auto simp: restore_from_backup_def split: option.splits)
qed

lemma restore_keeps_unbacked:
  assumes "f \<in> set slot_names" "files w (backup_path d f) = None"
  shows "files (fst (restore_from_backup w d)) (target_path d f) = files w (target_path d f)"
proof -
  obtain w' rep x where l: "restore_loop d slot_names w [] = (w', rep, x)"
    by (cases "restore_loop d slot_names w []") auto
  from restore_loop_no_backup [OF l assms(2) _ assms(1)] l show ?thesis
    by (auto simp: restore_from_backup_def split: option.splits)
qed

lemma deploy_cases:
  assumes "safe_replace_snownlp_model E w src (Some d) legacy = (w', r)"
  shows "(w' = w \<and> replaced_files r = [] \<and> \<not> success r) \<or>
     (\<exists>w1 x. replace_loop E src d (get_effective_model_filenames E legacy) w [] = (w1, replaced_files r, x) \<and>
        files w src \<noteq> None \<and>
        (case x of None \<Rightarrow> w' = w1 \<and> success r = (replaced_files r \<noteq> [])
                 | Some e \<Rightarrow> w' = fst (restore_from_backup w1 d) \<and> \<not> success r))"
  using assms
  by (auto simp: safe_replace_snownlp_model_def Let_def path_exists_def
      split: if_splits prod.splits option.splits)

lemma deploy_keeps_backup:
  assumes "f \<in> set slot_names" "files w (backup_path d f) = Some b"
  shows "files (fst (safe_replace_snownlp_model E w src (Some d) legacy)) (backup_path d f) = Some b"
proof -
  obtain w' r where s: "safe_replace_snownlp_model E w src (Some d) legacy = (w', r)"
    by (cases "safe_replace_snownlp_model E w src (Some d) legacy")
  from deploy_cases [OF s] show ?thesis
  proof
    assume "w' = w \<and> replaced_files r = [] \<and> \<not> success r"
    with s assms show ?thesis by simp
  next
    assume "\<exists>w1 x. replace_loop E src d (get_effective_model_filenames E legacy) w [] = (w1, replaced_files r, x) \<and>
        files w src \<noteq> None \<and>
        (case x of None \<Rightarrow> w' = w1 \<and> success r = (replaced_files r \<noteq> [])
                 | Some e \<Rightarrow> w' = fst (restore_from_backup w1 d) \<and> \<not> success r)"
    then obtain w1 x where l: "replace_loop E src d (get_effective_model_filenames E legacy) w [] = (w1, replaced_files r, x)"
      and x: "case x of None \<Rightarrow> w' = w1 \<and> success r = (replaced_files r \<noteq> [])
                 | Some e \<Rightarrow> w' = fst (restore_from_backup w1 d) \<and> \<not> success r" by blast
    have k: "files w1 (backup_path d f) = Some b"
      using replace_loop_keeps_backup [OF l targets_slot_names assms] .
    show ?thesis using x k s restore_keeps_backup [OF assms(1), of w1 d]
      by (cases x) auto
  qed
qed

lemma deploy_inv:
  assumes "f \<in> set slot_names"
    "files w (backup_path d f) = Some b \<or>
     (files w (backup_path d f) = None \<and> files w (target_path d f) = Some b)"
  shows "files (fst (safe_replace_snownlp_model E w src (Some d) legacy)) (backup_path d f) = Some b \<or>
     (files (fst (safe_replace_snownlp_model E w src (Some d) legacy)) (backup_path d f) = None \<and>
      files (fst (safe_replace_snownlp_model E w src (Some d) legacy)) (target_path d f) = Some b)"
proof -
  obtain w' r where s: "safe_replace_snownlp_model E w src (Some d) legacy = (w', r)"
    by (cases "safe_replace_snownlp_model E w src (Some d) legacy")
  from deploy_cases [OF s] show ?thesis
  proof
    assume "w' = w \<and> replaced_files r = [] \<and> \<not> success r"
    with s assms show ?thesis by simp
  next
    assume "\<exists>w1 x. replace_loop E src d (get_effective_model_filenames E legacy) w [] = (w1, replaced_files r, x) \<and>
        files w src \<noteq> None \<and>
        (case x of None \<Rightarrow> w' = w1 \<and> success r = (replaced_files r \<noteq> [])
                 | Some e \<Rightarrow> w' = fst (restore_from_backup w1 d) \<and> \<not> success r)"
    then obtain w1 x where l: "replace_loop E src d (get_effective_model_filenames E legacy) w [] = (w1, replaced_files r, x)"
      and x: "case x of None \<Rightarrow> w' = w1 \<and> success r = (replaced_files r \<noteq> [])
                 | Some e \<Rightarrow> w' = fst (restore_from_backup w1 d) \<and> \<not> success r" by blast
    note k = replace_loop_inv [OF l targets_slot_names assms]
    show ?thesis
    proof (cases x)
      case None
      with x k s show ?thesis by simp
    next
      case (Some e)
      then have w': "w' = fst (restore_from_backup w1 d)" using x by simp
      from k show ?thesis
      proof
        assume "files w1 (backup_path d f) = Some b"
        then show ?thesis using restore_keeps_backup [OF assms(1), of w1 d] s w' by simp
      next
        assume a: "files w1 (backup_path d f) = None \<and> files w1 (target_path d f) = Some b"
        then show ?thesis
          using restore_keeps_backup [OF assms(1), of w1 d]
            restore_keeps_unbacked [OF assms(1), of w1 d] s w' by simp
      qed
    qed
  qed
qed

lemma deploy_committed:
  assumes "f \<in> set slot_names" "files w (backup_path d f) = None" "files w (target_path d f) = Some b"
    "f \<in> set (replaced_files (snd (safe_replace_snownlp_model E w src (Some d) legacy)))"
  shows "files (fst (safe_replace_snownlp_model E w src (Some d) legacy)) (backup_path d f) = Some b"
proof -
  obtain w' r where s: "safe_replace_snownlp_model E w src (Some d) legacy = (w', r)"
    by (cases "safe_replace_snownlp_model E w src (Some d) legacy")
  from deploy_cases [OF s] show ?thesis
  proof
    assume "w' = w \<and> replaced_files r = [] \<and> \<not> success r"
    with s assms show ?thesis by simp
  next
    assume "\<exists>w1 x. replace_loop E src d (get_effective_model_filenames E legacy) w [] = (w1, replaced_files r, x) \<and>
        files w src \<noteq> None \<and>
        (case x of None \<Rightarrow> w' = w1 \<and> success r = (replaced_files r \<noteq> [])
                 | Some e \<Rightarrow> w' = fst (restore_from_backup w1 d) \<and> \<not> success r)"
    then obtain w1 x where l: "replace_loop E src d (get_effective_model_filenames E legacy) w [] = (w1, replaced_files r, x)"
      and x: "case x of None \<Rightarrow> w' = w1 \<and> success r = (replaced_files r \<noteq> [])
                 | Some e \<Rightarrow> w' = fst (restore_from_backup w1 d) \<and> \<not> success r" by blast
    have fr: "f \<in> set (replaced_files r)" using assms(4) s by simp
    have k: "files w1 (backup_path d f) = Some b"
      using replace_loop_committed [OF l targets_slot_names assms(1) fr _ assms(2,3)] by simp
    show ?thesis using x k s restore_keeps_backup [OF assms(1), of w1 d]
      by (cases x) auto
  qed
qed

lemma deploy_backup_origin:
  assumes "f \<in> set slot_names" "files w (backup_path d f) = None"
  shows "files (fst (safe_replace_snownlp_model E w src (Some d) legacy)) (backup_path d f) = None \<or>
         files (fst (safe_replace_snownlp_model E w src (Some d) legacy)) (backup_path d f)
           = files w (target_path d f)"
proof -
  obtain w' r where s: "safe_replace_snownlp_model E w src (Some d) legacy = (w', r)"
    by (cases "safe_replace_snownlp_model E w src (Some d) legacy")
  from deploy_cases [OF s] show ?thesis
  proof
    assume "w' = w \<and> replaced_files r = [] \<and> \<not> success r"
    with s assms show ?thesis by simp
  next
    assume "\<exists>w1 x. replace_loop E src d (get_effective_model_filenames E legacy) w [] = (w1, replaced_files r, x) \<and>
        files w src \<noteq> None \<and>
        (case x of None \<Rightarrow> w' = w1 \<and> success r = (replaced_files r \<noteq> [])
                 | Some e \<Rightarrow> w' = fst (restore_from_backup w1 d) \<and> \<not> success r)"
    then obtain w1 x where l: "replace_loop E src d (get_effective_model_filenames E legacy) w [] = (w1, replaced_files r, x)"
      and x: "case x of None \<Rightarrow> w' = w1 \<and> success r = (replaced_files r \<noteq> [])
                 | Some e \<Rightarrow> w' = fst (restore_from_backup w1 d) \<and> \<not> success r" by blast
    note k = replace_loop_backup_origin [OF l targets_slot_names targets_distinct assms]
    show ?thesis using x k s restore_keeps_backup [OF assms(1), of w1 d]
      by (cases x) auto
  qed
qed

lemma deploy_all_keeps_backup:
  "f \<in> set slot_names \<Longrightarrow> files w (backup_path d f) = Some b \<Longrightarrow>
   files (deploy_all E d w reqs) (backup_path d f) = Some b"
proof (induction reqs arbitrary: w)
  case Nil
  then show ?case by simp
next
  case (Cons rq reqs)
  obtain src legacy where rq: "rq = (src, legacy)" by (cases rq)
  from Cons.IH [OF Cons.prems(1) deploy_keeps_backup [OF Cons.prems, of E src legacy]]
  show ?case by (simp add: rq)
qed

lemma deploy_all_inv:
  "f \<in> set slot_names \<Longrightarrow>
   files w (backup_path d f) = Some b \<or>
     (files w (backup_path d f) = None \<and> files w (target_path d f) = Some b) \<Longrightarrow>
   files (deploy_all E d w reqs) (backup_path d f) = Some b \<or>
     (files (deploy_all E d w reqs) (backup_path d f) = None \<and>
      files (deploy_all E d w reqs) (target_path d f) = Some b)"
proof (induction reqs arbitrary: w)
  case Nil
  then show ?case by simp
next
  case (Cons rq reqs)
  obtain src legacy where rq: "rq = (src, legacy)" by (cases rq)
  from Cons.IH [OF Cons.prems(1) deploy_inv [OF Cons.prems, of E src legacy]]
  show ?case by (simp add: rq)
qed

lemma replace_one_source_kept:
  assumes "replace_one E src d f w = (w', None)" "files w src = Some c"
  shows "files w' src = Some c"
proof -
  note k = replace_one_committed [OF assms]
  show ?thesis
  proof (cases "src = target_path d f")
    case True
    with k show ?thesis by simp
  next
    case nt: False
    show ?thesis
    proof (cases "src = backup_path d f")
      case True
      with k assms(2) show ?thesis by simp
    next
      case False
      with nt k replace_one_frame [OF assms(1), of src] assms(2) show ?thesis by simp
    qed
  qed
qed

lemma replace_loop_succeeds:
  "spec_valid_artifact E w src \<Longrightarrow> files w src = Some c \<Longrightarrow> set ts \<subseteq> set slot_names \<Longrightarrow>
   distinct ts \<Longrightarrow>
   \<forall>g \<in> set ts. src \<noteq> tmp_path d g \<and> \<not> denied w (tmp_path d g) \<and> \<not> denied w (target_path d g) \<and>
      \<not> denied w (backup_path d g) \<Longrightarrow>
   \<exists>w'. replace_loop E src d ts w rep = (w', rep @ ts, None) \<and>
     (\<forall>f \<in> set ts. files w' (target_path d f) = Some c \<and> files w' (tmp_path d f) = None \<and>
        files w' (backup_path d f) =
          (case files w (backup_path d f) of None \<Rightarrow> files w (target_path d f) | Some b \<Rightarrow> Some b))"
proof (induction ts arbitrary: w rep)
  case Nil
  then show ?case by simp
next
  case (Cons g ts)
  have g: "g \<in> set slot_names" and ts: "set ts \<subseteq> set slot_names" "distinct ts" "g \<notin> set ts"
    using Cons.prems by simp_all
  from replace_one_succeeds [OF Cons.prems(1,2), of d g] Cons.prems(5)
  obtain w1 where s: "replace_one E src d g w = (w1, None)" by auto
  note c = replace_one_committed [OF s Cons.prems(2)]
  have src1: "files w1 src = Some c" using replace_one_source_kept [OF s Cons.prems(2)] .
  have v1: "spec_valid_artifact E w1 src"
    using spec_valid_cong [of w1 src w src E] src1 Cons.prems(1,2) by simp
  have cond1: "\<forall>h \<in> set ts. src \<noteq> tmp_path d h \<and> \<not> denied w1 (tmp_path d h) \<and>
      \<not> denied w1 (target_path d h) \<and> \<not> denied w1 (backup_path d h)"
  proof
    fix h assume h: "h \<in> set ts"
    then have "h \<noteq> g" "h \<in> set slot_names" using ts by auto
    note cs = cross_slot [OF this(2) g this(1), of d]
    have "denied w1 (tmp_path d h) = denied w (tmp_path d h)"
      "denied w1 (target_path d h) = denied w (target_path d h)"
      "denied w1 (backup_path d h) = denied w (backup_path d h)"
      using replace_one_frame_denied [OF s] cs by simp_all
    with Cons.prems(5) h
    show "src \<noteq> tmp_path d h \<and> \<not> denied w1 (tmp_path d h) \<and>
      \<not> denied w1 (target_path d h) \<and> \<not> denied w1 (backup_path d h)" by simp
  qed
  from Cons.IH [OF v1 src1 ts(1,2) cond1, of "rep @ [g]"]
  obtain w' where l: "replace_loop E src d ts w1 (rep @ [g]) = (w', (rep @ [g]) @ ts, None)"
    and r: "\<forall>f \<in> set ts. files w' (target_path d f) = Some c \<and> files w' (tmp_path d f) = None \<and>
        files w' (backup_path d f) =
          (case files w1 (backup_path d f) of None \<Rightarrow> files w1 (target_path d f) | Some b \<Rightarrow> Some b)"
    by blast
  have loop: "replace_loop E src d (g # ts) w rep = (w', rep @ g # ts, None)"
    using s l by simp
  have others: "\<forall>h \<in> set ts. \<forall>q \<in> {target_path d g, backup_path d g, tmp_path d g}.
      q \<noteq> target_path d h \<and> q \<noteq> backup_path d h \<and> q \<noteq> tmp_path d h"
  proof
    fix h assume h: "h \<in> set ts"
    then have "g \<noteq> h" "h \<in> set slot_names" using ts by auto
    from cross_slot [OF g this(2,1), of d]
    show "\<forall>q \<in> {target_path d g, backup_path d g, tmp_path d g}.
      q \<noteq> target_path d h \<and> q \<noteq> backup_path d h \<and> q \<noteq> tmp_path d h" by simp
  qed
  have keep: "files w' q = files w1 q" if "q \<in> {target_path d g, backup_path d g, tmp_path d g}" for q
    using replace_loop_frame [OF l, of q] others that by blast
  have first: "files w' (target_path d g) = Some c \<and> files w' (tmp_path d g) = None \<and>
        files w' (backup_path d g) =
          (case files w (backup_path d g) of None \<Rightarrow> files w (target_path d g) | Some b \<Rightarrow> Some b)"
    using keep c by simp
  have rest: "files w' (target_path d f) = Some c \<and> files w' (tmp_path d f) = None \<and>
        files w' (backup_path d f) =
          (case files w (backup_path d f) of None \<Rightarrow> files w (target_path d f) | Some b \<Rightarrow> Some b)"
    if f: "f \<in> set ts" for f
  proof -
    have "f \<noteq> g" "f \<in> set slot_names" using f ts by auto
    from replace_one_other_slot [OF s g this(2,1)] r f show ?thesis
      by (auto split: option.splits)
  qed
  from loop first rest show ?case by auto
qed

lemma deploy_default_dir:
  "get_snownlp_sentiment_dir E = Some d \<Longrightarrow>
   safe_replace_snownlp_model E w src None legacy = safe_replace_snownlp_model E w src (Some d) legacy"
  by (simp add: safe_replace_snownlp_model_def)

lemma targets_nonempty: "get_effective_model_filenames E legacy \<noteq> []"
  by (simp add: get_effective_model_filenames_def Let_def)

lemma restore_from_backup_env:
  "locked (fst (restore_from_backup w d)) = locked w"
proof -
  obtain w' rep x where l: "restore_loop d slot_names w [] = (w', rep, x)"
    by (cases "restore_loop d slot_names w []") auto
  from restore_loop_env [OF l] l show ?thesis
    by (auto simp: restore_from_backup_def split: option.splits)
qed


lemma replace_loop_all_replaced:
  "replace_loop E src d ts w rep = (w', rep', None) \<Longrightarrow> rep' = rep @ ts"
proof (induction ts arbitrary: w rep)
  case Nil
  then show ?case by simp
next
  case (Cons g ts)
  obtain w1 y where s: "replace_one E src d g w = (w1, y)" by (cases "replace_one E src d g w")
  show ?case
  proof (cases y)
    case None
    with Cons.prems s have "replace_loop E src d ts w1 (rep @ [g]) = (w', rep', None)" by simp
    from Cons.IH [OF this] show ?thesis by simp
  next
    case (Some e)
    with Cons.prems s show ?thesis by simp
  qed
qed

lemma deploy_error:
  assumes "safe_replace_snownlp_model E w src sd legacy = (w', r)" "\<not> success r"
  shows "error r \<noteq> None"
  using assms targets_nonempty [of E legacy]
  by (auto simp: safe_replace_snownlp_model_def Let_def
      split: if_splits prod.splits option.splits dest!: replace_loop_all_replaced)

lemma restore_none:
  assumes "files w (backup_path d ''sentiment.marshal.3'') = None"
    "files w (backup_path d ''sentiment.marshal'') = None"
  shows "restore_from_backup w d =
    (w, \<lparr>success = False, sentiment_dir = Some d, replaced_files = [],
         error = Some ''no .backup_gui files found''\<rparr>)"
  using assms by (simp add: restore_from_backup_def slot_names_def path_exists_def)

lemma restore_permitted:
  assumes "\<not> denied w (target_path d ''sentiment.marshal.3'')"
    "\<not> denied w (target_path d ''sentiment.marshal'')"
    "restore_from_backup w d = (w', r)"
  shows "replaced_files r = filter (\<lambda>f. files w (backup_path d f) \<noteq> None) slot_names"
    and "success r = (replaced_files r \<noteq> [])"
    and "success r \<longrightarrow> error r = None"
    and "files w' (target_path d ''sentiment.marshal.3'') =
      (case files w (backup_path d ''sentiment.marshal.3'') of
         Some b \<Rightarrow> Some b | None \<Rightarrow> files w (target_path d ''sentiment.marshal.3''))"
    and "files w' (target_path d ''sentiment.marshal'') =
      (case files w (backup_path d ''sentiment.marshal'') of
         Some b \<Rightarrow> Some b | None \<Rightarrow> files w (target_path d ''sentiment.marshal''))"
  using assms
  by (auto simp: restore_from_backup_def slot_names_def path_exists_def copy2_def put_file_def
      denied_def Let_def slot_paths split: option.splits if_splits)

section \<open>Deployment: the claims\<close>


text \<open>
  C9 as amended. A deployment of a source whose staging, target and backup paths are
  not refused, the source not being one of the staging paths, to a slot whose target
  file does not exist: when the source is a valid artifact the call succeeds, every
  target is reported as replaced, the missing target is created with the bytes of the
  source through the staged copy (which is gone afterwards), and the permanent backup
  of that slot is as it was before the call, so none is created for it. The pass of
  the loop validates the staged copy before the rename: on bytes the loader rejects
  with a text that is not empty it raises the validation failure, the staged copy is
  removed and the target is still missing.
\<close>

theorem deploy_creates_missing_target:
  assumes "d \<noteq> []" "isdir w d" "files w src = Some c"
    "\<forall>g \<in> set (get_effective_model_filenames E legacy).
        src \<noteq> tmp_path d g \<and> \<not> denied w (tmp_path d g) \<and> \<not> denied w (target_path d g) \<and>
        \<not> denied w (backup_path d g)"
    "f \<in> set (get_effective_model_filenames E legacy)"
    "files w (target_path d f) = None"
  shows "(spec_valid_artifact E w src \<longrightarrow>
       success (snd (safe_replace_snownlp_model E w src (Some d) legacy)) \<and>
       error (snd (safe_replace_snownlp_model E w src (Some d) legacy)) = None \<and>
       replaced_files (snd (safe_replace_snownlp_model E w src (Some d) legacy))
         = get_effective_model_filenames E legacy \<and>
       files (fst (safe_replace_snownlp_model E w src (Some d) legacy)) (target_path d f) = Some c \<and>
       files (fst (safe_replace_snownlp_model E w src (Some d) legacy)) (tmp_path d f) = None \<and>
       files (fst (safe_replace_snownlp_model E w src (Some d) legacy)) (backup_path d f)
         = files w (backup_path d f)) \<and>
     (\<forall>e. load_marshal_data E w src = Inl e \<and> str_exn e \<noteq> [] \<longrightarrow>
        (\<exists>w2. replace_one E src d f w =
                 (w2, Some (ValueError (''new model validation failed: '' @ str_exn e))) \<and>
              files w2 (target_path d f) = None \<and> files w2 (tmp_path d f) = None))"
proof (intro conjI impI allI)
  assume v: "spec_valid_artifact E w src"
  from replace_loop_succeeds [OF v assms(3) targets_slot_names targets_distinct assms(4), of "[]"]
  obtain w' where l: "replace_loop E src d (get_effective_model_filenames E legacy) w []
        = (w', get_effective_model_filenames E legacy, None)"
    and r: "\<forall>f \<in> set (get_effective_model_filenames E legacy).
        files w' (target_path d f) = Some c \<and> files w' (tmp_path d f) = None \<and>
        files w' (backup_path d f) =
          (case files w (backup_path d f) of None \<Rightarrow> files w (target_path d f) | Some b \<Rightarrow> Some b)"
    by auto
  have nv: "\<not> truthy (validate_marshal_model_file E w src)"
    using validate_valid [OF v] by (simp add: truthy_def)
  have R: "safe_replace_snownlp_model E w src (Some d) legacy =
      (w', \<lparr>success = True, sentiment_dir = Some d,
            replaced_files = get_effective_model_filenames E legacy, error = None\<rparr>)"
    using assms(1,2,3) nv l targets_nonempty [of E legacy]
    by (simp add: safe_replace_snownlp_model_def path_exists_def Let_def)
  show "success (snd (safe_replace_snownlp_model E w src (Some d) legacy))"
    "error (snd (safe_replace_snownlp_model E w src (Some d) legacy)) = None"
    "replaced_files (snd (safe_replace_snownlp_model E w src (Some d) legacy))
         = get_effective_model_filenames E legacy"
    by (simp_all add: R)
  show "files (fst (safe_replace_snownlp_model E w src (Some d) legacy)) (target_path d f) = Some c"
    "files (fst (safe_replace_snownlp_model E w src (Some d) legacy)) (tmp_path d f) = None"
    using r assms(5) by (simp_all add: R)
  show "files (fst (safe_replace_snownlp_model E w src (Some d) legacy)) (backup_path d f)
         = files w (backup_path d f)"
    using r assms(5,6) by (auto simp: R split: option.splits)
next
  fix e
  assume a: "load_marshal_data E w src = Inl e \<and> str_exn e \<noteq> []"
  from assms(4,5) have p: "src \<noteq> tmp_path d f" "\<not> denied w (tmp_path d f)"
    "\<not> denied w (backup_path d f)" by auto
  from replace_one_rejects_staged [OF assms(3) _ _ p, of E e] a assms(6)
  show "\<exists>w2. replace_one E src d f w =
                 (w2, Some (ValueError (''new model validation failed: '' @ str_exn e))) \<and>
              files w2 (target_path d f) = None \<and> files w2 (tmp_path d f) = None"
    by auto
qed

theorem deploy_creates_missing_target_witness:
  "spec_valid_artifact demo_env (demo_world [(''/m/new.marshal'', ''model:new'')] []) ''/m/new.marshal'' \<and>
   isdir (demo_world [(''/m/new.marshal'', ''model:new'')] []) ''/site/snownlp/sentiment'' \<and>
   ''sentiment.marshal.3'' \<in> set (get_effective_model_filenames demo_env False) \<and>
   files (demo_world [(''/m/new.marshal'', ''model:new'')] []) (target_path ''/site/snownlp/sentiment'' ''sentiment.marshal.3'') = None \<and>
   success (snd (safe_replace_snownlp_model demo_env (demo_world [(''/m/new.marshal'', ''model:new'')] []) ''/m/new.marshal'' (Some ''/site/snownlp/sentiment'') False)) \<and>
   files (fst (safe_replace_snownlp_model demo_env (demo_world [(''/m/new.marshal'', ''model:new'')] []) ''/m/new.marshal'' (Some ''/site/snownlp/sentiment'') False))
      (target_path ''/site/snownlp/sentiment'' ''sentiment.marshal.3'') = Some ''model:new'' \<and>
   files (fst (safe_replace_snownlp_model demo_env (demo_world [(''/m/new.marshal'', ''model:new'')] []) ''/m/new.marshal'' (Some ''/site/snownlp/sentiment'') False))
      (backup_path ''/site/snownlp/sentiment'' ''sentiment.marshal.3'') = None \<and>
   load_marshal_data demo_env (demo_world [(''/m/seven.marshal'', ''seven'')] []) ''/m/seven.marshal''
      = Inl (ValueError ''marshal data is not a dict'') \<and>
   snd (replace_one demo_env ''/m/seven.marshal'' ''/site/snownlp/sentiment'' ''sentiment.marshal.3'' (demo_world [(''/m/seven.marshal'', ''seven'')] []))
      = Some (ValueError ''new model validation failed: marshal data is not a dict'') \<and>
   files (fst (replace_one demo_env ''/m/seven.marshal'' ''/site/snownlp/sentiment'' ''sentiment.marshal.3'' (demo_world [(''/m/seven.marshal'', ''seven'')] [])))
      (target_path ''/site/snownlp/sentiment'' ''sentiment.marshal.3'') = None \<and>
   files (fst (replace_one demo_env ''/m/seven.marshal'' ''/site/snownlp/sentiment'' ''sentiment.marshal.3'' (demo_world [(''/m/seven.marshal'', ''seven'')] [])))
      (tmp_path ''/site/snownlp/sentiment'' ''sentiment.marshal.3'') = None"
proof -
  let ?w = "(demo_world [(''/m/new.marshal'', ''model:new'')] [])"
  let ?v = "(demo_world [(''/m/seven.marshal'', ''seven'')] [])"
  let ?d = "''/site/snownlp/sentiment''"
  let ?f = "''sentiment.marshal.3''"
  have h1: "?d \<noteq> []" by simp
  have h2: "isdir ?w ?d" "isdir ?v ?d" by (simp_all add: isdir_def demo_world_def)
  have h3: "files ?w ''/m/new.marshal'' = Some ''model:new''"
    "files ?v ''/m/seven.marshal'' = Some ''seven''"
    by (simp_all add: demo_world_def)
  have h4: "\<forall>g \<in> set (get_effective_model_filenames demo_env False).
        ''/m/new.marshal'' \<noteq> tmp_path ?d g \<and> \<not> denied ?w (tmp_path ?d g) \<and>
        \<not> denied ?w (target_path ?d g) \<and> \<not> denied ?w (backup_path ?d g)"
    "\<forall>g \<in> set (get_effective_model_filenames demo_env False).
        ''/m/seven.marshal'' \<noteq> tmp_path ?d g \<and> \<not> denied ?v (tmp_path ?d g) \<and>
        \<not> denied ?v (target_path ?d g) \<and> \<not> denied ?v (backup_path ?d g)"
    by (simp_all add: get_effective_model_filenames_def demo_env_def demo_world_def slot_paths
        dir_prefix_def denied_def)
  have h5: "?f \<in> set (get_effective_model_filenames demo_env False)"
    by (simp add: get_effective_model_filenames_def demo_env_def)
  have h6: "files ?w (target_path ?d ?f) = None" "files ?v (target_path ?d ?f) = None"
    by (simp_all add: demo_world_def slot_paths dir_prefix_def)
  have b: "files ?w (backup_path ?d ?f) = None"
    by (simp add: demo_world_def slot_paths dir_prefix_def)
  have v: "spec_valid_artifact demo_env ?w ''/m/new.marshal''" by code_simp
  have l: "load_marshal_data demo_env ?v ''/m/seven.marshal''
      = Inl (ValueError ''marshal data is not a dict'')" by code_simp
  have n: "str_exn (ValueError ''marshal data is not a dict'') \<noteq> []" by simp
  from deploy_creates_missing_target [OF h1 h2(1) h3(1) h4(1) h5 h6(1)] v b
  have 1: "success (snd (safe_replace_snownlp_model demo_env ?w ''/m/new.marshal'' (Some ?d) False))"
    "files (fst (safe_replace_snownlp_model demo_env ?w ''/m/new.marshal'' (Some ?d) False))
       (target_path ?d ?f) = Some ''model:new''"
    "files (fst (safe_replace_snownlp_model demo_env ?w ''/m/new.marshal'' (Some ?d) False))
       (backup_path ?d ?f) = None"
    by simp_all
  from deploy_creates_missing_target [OF h1 h2(2) h3(2) h4(2) h5 h6(2)] l n
  obtain w2 where "replace_one demo_env ''/m/seven.marshal'' ?d ?f ?v =
      (w2, Some (ValueError (''new model validation failed: '' @
                   str_exn (ValueError ''marshal data is not a dict''))))"
    "files w2 (target_path ?d ?f) = None" "files w2 (tmp_path ?d ?f) = None"
    by blast
  then have 2: "snd (replace_one demo_env ''/m/seven.marshal'' ?d ?f ?v)
      = Some (ValueError ''new model validation failed: marshal data is not a dict'')"
    "files (fst (replace_one demo_env ''/m/seven.marshal'' ?d ?f ?v)) (target_path ?d ?f) = None"
    "files (fst (replace_one demo_env ''/m/seven.marshal'' ?d ?f ?v)) (tmp_path ?d ?f) = None"
    by simp_all
  from v h2(1) h5 h6(1) 1 l 2 show ?thesis by blast
qed

text \<open>
  The claim as stated fails for a valid source that lies at the staging path of the
  slot: the staged copy is a copy of the file onto itself, \<^verbatim>\<open>shutil.copy2\<close> raises
  \<^verbatim>\<open>SameFileError\<close>, the call fails and the target is still missing.
\<close>

theorem deploy_fails_for_source_at_staging_path_counterexample:
  "spec_valid_artifact demo_env (demo_world [(''/site/snownlp/sentiment/sentiment.marshal.3.tmp_new'', ''model:new'')] []) ''/site/snownlp/sentiment/sentiment.marshal.3.tmp_new'' \<and>
   files (demo_world [(''/site/snownlp/sentiment/sentiment.marshal.3.tmp_new'', ''model:new'')] []) (target_path ''/site/snownlp/sentiment'' ''sentiment.marshal.3'') = None \<and>
   \<not> success (snd (safe_replace_snownlp_model demo_env (demo_world [(''/site/snownlp/sentiment/sentiment.marshal.3.tmp_new'', ''model:new'')] []) ''/site/snownlp/sentiment/sentiment.marshal.3.tmp_new'' (Some ''/site/snownlp/sentiment'') False)) \<and>
   replaced_files (snd (safe_replace_snownlp_model demo_env (demo_world [(''/site/snownlp/sentiment/sentiment.marshal.3.tmp_new'', ''model:new'')] []) ''/site/snownlp/sentiment/sentiment.marshal.3.tmp_new'' (Some ''/site/snownlp/sentiment'') False)) = [] \<and>
   files (fst (safe_replace_snownlp_model demo_env (demo_world [(''/site/snownlp/sentiment/sentiment.marshal.3.tmp_new'', ''model:new'')] []) ''/site/snownlp/sentiment/sentiment.marshal.3.tmp_new'' (Some ''/site/snownlp/sentiment'') False)) (target_path ''/site/snownlp/sentiment'' ''sentiment.marshal.3'') = None"
  by code_simp




text \<open>
  With a read-only source the committed slot is read-only as well, since
  \<^verbatim>\<open>shutil.copy2\<close> copies the permission: the copy of the restore onto it is refused, the
  handler drops that exception, and the slot stays on the new artifact although its
  backup holds the content from before the call.
\<close>

lemma rollback_refused_for_readonly_source:
  "readonly (demo_world [(''/m/new.marshal'', ''model:new''), (''/site/snownlp/sentiment/sentiment.marshal.3'', ''model:old''), (''/site/snownlp/sentiment/sentiment.marshal'', ''model:legacy''), (''/site/snownlp/sentiment/sentiment.marshal.tmp_new'', ''stale'')] [''/m/new.marshal'', ''/site/snownlp/sentiment/sentiment.marshal.tmp_new'']) ''/m/new.marshal'' \<and>
   files (demo_world [(''/m/new.marshal'', ''model:new''), (''/site/snownlp/sentiment/sentiment.marshal.3'', ''model:old''), (''/site/snownlp/sentiment/sentiment.marshal'', ''model:legacy''), (''/site/snownlp/sentiment/sentiment.marshal.tmp_new'', ''stale'')] [''/m/new.marshal'', ''/site/snownlp/sentiment/sentiment.marshal.tmp_new'']) (target_path ''/site/snownlp/sentiment'' ''sentiment.marshal.3'') = Some ''model:old'' \<and>
   \<not> success (snd (safe_replace_snownlp_model demo_env (demo_world [(''/m/new.marshal'', ''model:new''), (''/site/snownlp/sentiment/sentiment.marshal.3'', ''model:old''), (''/site/snownlp/sentiment/sentiment.marshal'', ''model:legacy''), (''/site/snownlp/sentiment/sentiment.marshal.tmp_new'', ''stale'')] [''/m/new.marshal'', ''/site/snownlp/sentiment/sentiment.marshal.tmp_new'']) ''/m/new.marshal'' (Some ''/site/snownlp/sentiment'') True)) \<and>
   replaced_files (snd (safe_replace_snownlp_model demo_env (demo_world [(''/m/new.marshal'', ''model:new''), (''/site/snownlp/sentiment/sentiment.marshal.3'', ''model:old''), (''/site/snownlp/sentiment/sentiment.marshal'', ''model:legacy''), (''/site/snownlp/sentiment/sentiment.marshal.tmp_new'', ''stale'')] [''/m/new.marshal'', ''/site/snownlp/sentiment/sentiment.marshal.tmp_new'']) ''/m/new.marshal'' (Some ''/site/snownlp/sentiment'') True)) = [''sentiment.marshal.3''] \<and>
   files (fst (safe_replace_snownlp_model demo_env (demo_world [(''/m/new.marshal'', ''model:new''), (''/site/snownlp/sentiment/sentiment.marshal.3'', ''model:old''), (''/site/snownlp/sentiment/sentiment.marshal'', ''model:legacy''), (''/site/snownlp/sentiment/sentiment.marshal.tmp_new'', ''stale'')] [''/m/new.marshal'', ''/site/snownlp/sentiment/sentiment.marshal.tmp_new'']) ''/m/new.marshal'' (Some ''/site/snownlp/sentiment'') True)) (backup_path ''/site/snownlp/sentiment'' ''sentiment.marshal.3'') = Some ''model:old'' \<and>
   files (fst (safe_replace_snownlp_model demo_env (demo_world [(''/m/new.marshal'', ''model:new''), (''/site/snownlp/sentiment/sentiment.marshal.3'', ''model:old''), (''/site/snownlp/sentiment/sentiment.marshal'', ''model:legacy''), (''/site/snownlp/sentiment/sentiment.marshal.tmp_new'', ''stale'')] [''/m/new.marshal'', ''/site/snownlp/sentiment/sentiment.marshal.tmp_new'']) ''/m/new.marshal'' (Some ''/site/snownlp/sentiment'') True)) (target_path ''/site/snownlp/sentiment'' ''sentiment.marshal.3'') = Some ''model:new''"
  by code_simp

text \<open>
  C3 as amended. For each of the two slots: a deployment creates the permanent backup
  only when none exists and the target file exists, and then with the target's
  content; a backup that exists is left as it is by every later deployment, failed or
  not; so for a slot whose target file exists, without a backup, before the first
  deployment, after any number of deployments the backup is either still missing, with
  the slot untouched, or holds the content the slot had before the first deployment,
  and it holds that content after any deployment that replaced the slot, whatever
  follows. (A slot with no file before the first deployment gets no backup from it.)
\<close>

theorem permanent_backup_is_original:
  assumes "f \<in> set slot_names"
  shows
   "(files w (backup_path d f) = None \<and>
       files (fst (safe_replace_snownlp_model E w src (Some d) legacy)) (backup_path d f) \<noteq> None \<longrightarrow>
         files w (target_path d f) \<noteq> None \<and>
         files (fst (safe_replace_snownlp_model E w src (Some d) legacy)) (backup_path d f)
           = files w (target_path d f)) \<and>
    (files w (backup_path d f) = Some b \<longrightarrow>
       files (deploy_all E d w reqs) (backup_path d f) = Some b) \<and>
    (files w (target_path d f) = Some b \<and> files w (backup_path d f) = None \<longrightarrow>
       files (deploy_all E d w reqs) (backup_path d f) = Some b \<or>
       (files (deploy_all E d w reqs) (backup_path d f) = None \<and>
        files (deploy_all E d w reqs) (target_path d f) = Some b)) \<and>
    (files w (target_path d f) = Some b \<and> files w (backup_path d f) = None \<and>
     f \<in> set (replaced_files (snd (safe_replace_snownlp_model E w src (Some d) legacy))) \<longrightarrow>
       files (deploy_all E d w ((src, legacy) # reqs)) (backup_path d f) = Some b)"
proof (intro conjI impI)
  assume a: "files w (backup_path d f) = None \<and>
       files (fst (safe_replace_snownlp_model E w src (Some d) legacy)) (backup_path d f) \<noteq> None"
  with deploy_backup_origin [OF assms, of w d E src legacy]
  show "files w (target_path d f) \<noteq> None" by auto
  from a deploy_backup_origin [OF assms, of w d E src legacy]
  show "files (fst (safe_replace_snownlp_model E w src (Some d) legacy)) (backup_path d f)
           = files w (target_path d f)" by auto
next
  assume "files w (backup_path d f) = Some b"
  then show "files (deploy_all E d w reqs) (backup_path d f) = Some b"
    using deploy_all_keeps_backup [OF assms] by blast
next
  assume "files w (target_path d f) = Some b \<and> files w (backup_path d f) = None"
  then show "files (deploy_all E d w reqs) (backup_path d f) = Some b \<or>
       (files (deploy_all E d w reqs) (backup_path d f) = None \<and>
        files (deploy_all E d w reqs) (target_path d f) = Some b)"
    using deploy_all_inv [OF assms, of w d b E reqs] by blast
next
  assume a: "files w (target_path d f) = Some b \<and> files w (backup_path d f) = None \<and>
     f \<in> set (replaced_files (snd (safe_replace_snownlp_model E w src (Some d) legacy)))"
  then have "files (fst (safe_replace_snownlp_model E w src (Some d) legacy)) (backup_path d f) = Some b"
    using deploy_committed [OF assms, of w d b E src legacy] by blast
  from deploy_all_keeps_backup [OF assms this, of E reqs]
  show "files (deploy_all E d w ((src, legacy) # reqs)) (backup_path d f) = Some b" by simp
qed

theorem permanent_backup_is_original_witness:
  "''sentiment.marshal.3'' \<in> set slot_names \<and>
   files (demo_world [(''/m/x.marshal'', ''model:X''), (''/m/y.marshal'', ''model:Y''), (''/site/snownlp/sentiment/sentiment.marshal.3'', ''model:old'')] []) (target_path ''/site/snownlp/sentiment'' ''sentiment.marshal.3'') = Some ''model:old'' \<and>
   files (demo_world [(''/m/x.marshal'', ''model:X''), (''/m/y.marshal'', ''model:Y''), (''/site/snownlp/sentiment/sentiment.marshal.3'', ''model:old'')] []) (backup_path ''/site/snownlp/sentiment'' ''sentiment.marshal.3'') = None \<and>
   ''sentiment.marshal.3'' \<in> set (replaced_files (snd (safe_replace_snownlp_model demo_env (demo_world [(''/m/x.marshal'', ''model:X''), (''/m/y.marshal'', ''model:Y''), (''/site/snownlp/sentiment/sentiment.marshal.3'', ''model:old'')] [])
        ''/m/x.marshal'' (Some ''/site/snownlp/sentiment'') False))) \<and>
   files (fst (safe_replace_snownlp_model demo_env (demo_world [(''/m/x.marshal'', ''model:X''), (''/m/y.marshal'', ''model:Y''), (''/site/snownlp/sentiment/sentiment.marshal.3'', ''model:old'')] []) ''/m/x.marshal'' (Some ''/site/snownlp/sentiment'') False))
      (backup_path ''/site/snownlp/sentiment'' ''sentiment.marshal.3'') = Some ''model:old'' \<and>
   files (deploy_all demo_env ''/site/snownlp/sentiment'' (demo_world [(''/m/x.marshal'', ''model:X''), (''/m/y.marshal'', ''model:Y''), (''/site/snownlp/sentiment/sentiment.marshal.3'', ''model:old'')] []) [(''/m/x.marshal'', False), (''/m/y.marshal'', False)])
      (backup_path ''/site/snownlp/sentiment'' ''sentiment.marshal.3'') = Some ''model:old'' \<and>
   files (demo_world [(''/m/x.marshal'', ''model:X''), (''/site/snownlp/sentiment/sentiment.marshal.3.backup_gui'', ''model:orig'')] []) (backup_path ''/site/snownlp/sentiment'' ''sentiment.marshal.3'') = Some ''model:orig'' \<and>
   files (deploy_all demo_env ''/site/snownlp/sentiment'' (demo_world [(''/m/x.marshal'', ''model:X''), (''/site/snownlp/sentiment/sentiment.marshal.3.backup_gui'', ''model:orig'')] []) [(''/m/x.marshal'', False)])
      (backup_path ''/site/snownlp/sentiment'' ''sentiment.marshal.3'') = Some ''model:orig''"
proof -
  let ?w = "demo_world [(''/m/x.marshal'', ''model:X''), (''/m/y.marshal'', ''model:Y''), (''/site/snownlp/sentiment/sentiment.marshal.3'', ''model:old'')] []"
  let ?v = "demo_world [(''/m/x.marshal'', ''model:X''), (''/site/snownlp/sentiment/sentiment.marshal.3.backup_gui'', ''model:orig'')] []"
  let ?d = "''/site/snownlp/sentiment''"
  let ?f = "''sentiment.marshal.3''"
  have n: "?f \<in> set slot_names" by (simp add: slot_names_def)
  have t: "files ?w (target_path ?d ?f) = Some ''model:old''"
    and b: "files ?w (backup_path ?d ?f) = None"
    and o: "files ?v (backup_path ?d ?f) = Some ''model:orig''"
    by (simp_all add: demo_world_def slot_paths dir_prefix_def)
  have r: "?f \<in> set (replaced_files (snd (safe_replace_snownlp_model demo_env ?w
        ''/m/x.marshal'' (Some ?d) False)))" by code_simp
  have c: "files (fst (safe_replace_snownlp_model demo_env ?w ''/m/x.marshal'' (Some ?d) False))
      (backup_path ?d ?f) \<noteq> None" by code_simp
  note th = permanent_backup_is_original [OF n, of ?w ?d demo_env "''/m/x.marshal''" False
      "''model:old''" "[(''/m/y.marshal'', False)]"]
  from th b c t
  have 1: "files (fst (safe_replace_snownlp_model demo_env ?w ''/m/x.marshal'' (Some ?d) False))
      (backup_path ?d ?f) = Some ''model:old''" by simp
  from th t b r
  have 2: "files (deploy_all demo_env ?d ?w [(''/m/x.marshal'', False), (''/m/y.marshal'', False)])
      (backup_path ?d ?f) = Some ''model:old''" by blast
  from permanent_backup_is_original [OF n, of ?v ?d demo_env "''/m/x.marshal''" False
      "''model:orig''" "[(''/m/x.marshal'', False)]"] o
  have 3: "files (deploy_all demo_env ?d ?v [(''/m/x.marshal'', False)])
      (backup_path ?d ?f) = Some ''model:orig''" by blast
  from n t b r 1 2 o 3 show ?thesis by simp
qed

text \<open>
  The claim as stated fails for a slot with no file before the first deployment: the
  first deployment leaves no backup, and the second one backs up the artifact the
  first one deployed.
\<close>

theorem backup_of_new_slot_is_intermediate_counterexample:
  "files (demo_world [(''/m/x.marshal'', ''model:X''), (''/m/y.marshal'', ''model:Y'')] []) (target_path ''/site/snownlp/sentiment'' ''sentiment.marshal.3'') = None \<and>
   files (deploy_all demo_env ''/site/snownlp/sentiment'' (demo_world [(''/m/x.marshal'', ''model:X''), (''/m/y.marshal'', ''model:Y'')] []) [(''/m/x.marshal'', False)])
      (backup_path ''/site/snownlp/sentiment'' ''sentiment.marshal.3'') = None \<and>
   files (deploy_all demo_env ''/site/snownlp/sentiment'' (demo_world [(''/m/x.marshal'', ''model:X''), (''/m/y.marshal'', ''model:Y'')] []) [(''/m/x.marshal'', False)])
      (target_path ''/site/snownlp/sentiment'' ''sentiment.marshal.3'') = Some ''model:X'' \<and>
   files (deploy_all demo_env ''/site/snownlp/sentiment'' (demo_world [(''/m/x.marshal'', ''model:X''), (''/m/y.marshal'', ''model:Y'')] []) [(''/m/x.marshal'', False), (''/m/y.marshal'', False)])
      (backup_path ''/site/snownlp/sentiment'' ''sentiment.marshal.3'') = Some ''model:X'' \<and>
   files (deploy_all demo_env ''/site/snownlp/sentiment'' (demo_world [(''/m/x.marshal'', ''model:X''), (''/m/y.marshal'', ''model:Y'')] []) [(''/m/x.marshal'', False), (''/m/y.marshal'', False)])
      (target_path ''/site/snownlp/sentiment'' ''sentiment.marshal.3'') = Some ''model:Y''"
  by code_simp

text \<open>
  C7 as amended. \<^verbatim>\<open>restore_from_backup\<close> works on the two slot names of the sentiment
  directory. When no slot has a permanent backup it changes nothing and fails with
  the error \<^verbatim>\<open>no .backup_gui files found\<close>. When at least one slot has a backup and no
  copy is refused, it succeeds without an error: each slot that has a backup is
  overwritten with the backup's content and listed, and a slot without a backup is
  skipped. In every case the backups stay as they are and a slot without a backup is
  not changed.
\<close>

theorem restore_copies_existing_backups:
  assumes "restore_from_backup w d = (w', r)"
  shows
   "((\<forall>f \<in> set slot_names. files w (backup_path d f) = None) \<longrightarrow>
       w' = w \<and> \<not> success r \<and> replaced_files r = [] \<and>
       error r = Some ''no .backup_gui files found'') \<and>
    ((\<exists>f \<in> set slot_names. files w (backup_path d f) \<noteq> None) \<and>
     (\<forall>f \<in> set slot_names. \<not> denied w (target_path d f)) \<longrightarrow>
       success r \<and> error r = None \<and>
       replaced_files r = filter (\<lambda>f. files w (backup_path d f) \<noteq> None) slot_names \<and>
       (\<forall>f \<in> set slot_names.
          files w' (target_path d f) =
            (case files w (backup_path d f) of
               Some b \<Rightarrow> Some b | None \<Rightarrow> files w (target_path d f)))) \<and>
    (\<forall>f \<in> set slot_names.
       files w' (backup_path d f) = files w (backup_path d f) \<and>
       (files w (backup_path d f) = None \<longrightarrow> files w' (target_path d f) = files w (target_path d f)))"
proof (intro conjI impI)
  assume a: "\<forall>f \<in> set slot_names. files w (backup_path d f) = None"
  then have "restore_from_backup w d =
    (w, \<lparr>success = False, sentiment_dir = Some d, replaced_files = [],
         error = Some ''no .backup_gui files found''\<rparr>)"
    using restore_none [of w d] by (simp add: slot_names_def)
  with assms show "w' = w" "\<not> success r" "replaced_files r = []"
    "error r = Some ''no .backup_gui files found''" by auto
next
  assume a: "(\<exists>f \<in> set slot_names. files w (backup_path d f) \<noteq> None) \<and>
     (\<forall>f \<in> set slot_names. \<not> denied w (target_path d f))"
  then have nd: "\<not> denied w (target_path d ''sentiment.marshal.3'')"
    "\<not> denied w (target_path d ''sentiment.marshal'')" by (simp_all add: slot_names_def)
  note p = restore_permitted [OF nd assms]
  show rf: "replaced_files r = filter (\<lambda>f. files w (backup_path d f) \<noteq> None) slot_names"
    using p(1) .
  have "filter (\<lambda>f. files w (backup_path d f) \<noteq> None) slot_names \<noteq> []"
    using a by (auto simp: filter_empty_conv)
  then show "success r" using p(2) rf by simp
  then show "error r = None" using p(3) by simp
  show "\<forall>f \<in> set slot_names.
          files w' (target_path d f) =
            (case files w (backup_path d f) of
               Some b \<Rightarrow> Some b | None \<Rightarrow> files w (target_path d f))"
    using p(4,5) by (simp add: slot_names_def)
next
  show "\<forall>f \<in> set slot_names.
       files w' (backup_path d f) = files w (backup_path d f) \<and>
       (files w (backup_path d f) = None \<longrightarrow> files w' (target_path d f) = files w (target_path d f))"
    using restore_keeps_backup [of _ w d] restore_keeps_unbacked [of _ w d] assms by auto
qed

theorem restore_copies_existing_backups_witness:
  "files (demo_world [] []) (backup_path ''/site/snownlp/sentiment'' ''sentiment.marshal.3'') = None \<and>
   files (demo_world [] []) (backup_path ''/site/snownlp/sentiment'' ''sentiment.marshal'') = None \<and>
   error (snd (restore_from_backup (demo_world [] []) ''/site/snownlp/sentiment''))
     = Some ''no .backup_gui files found'' \<and>
   files (demo_world [(''/site/snownlp/sentiment/sentiment.marshal.3.backup_gui'', ''model:orig''), (''/site/snownlp/sentiment/sentiment.marshal.3'', ''model:cur'')] []) (backup_path ''/site/snownlp/sentiment'' ''sentiment.marshal.3'') = Some ''model:orig'' \<and>
   \<not> denied (demo_world [(''/site/snownlp/sentiment/sentiment.marshal.3.backup_gui'', ''model:orig''), (''/site/snownlp/sentiment/sentiment.marshal.3'', ''model:cur'')] []) (target_path ''/site/snownlp/sentiment'' ''sentiment.marshal.3'') \<and>
   \<not> denied (demo_world [(''/site/snownlp/sentiment/sentiment.marshal.3.backup_gui'', ''model:orig''), (''/site/snownlp/sentiment/sentiment.marshal.3'', ''model:cur'')] []) (target_path ''/site/snownlp/sentiment'' ''sentiment.marshal'') \<and>
   files (fst (restore_from_backup (demo_world [(''/site/snownlp/sentiment/sentiment.marshal.3.backup_gui'', ''model:orig''), (''/site/snownlp/sentiment/sentiment.marshal.3'', ''model:cur'')] []) ''/site/snownlp/sentiment'')) (target_path ''/site/snownlp/sentiment'' ''sentiment.marshal.3'')
     = Some ''model:orig''"
proof -
  let ?d = "''/site/snownlp/sentiment''"
  let ?w = "demo_world [(''/site/snownlp/sentiment/sentiment.marshal.3.backup_gui'', ''model:orig''), (''/site/snownlp/sentiment/sentiment.marshal.3'', ''model:cur'')] []"
  have n3: "files (demo_world [] []) (backup_path ?d ''sentiment.marshal.3'') = None"
    and nm: "files (demo_world [] []) (backup_path ?d ''sentiment.marshal'') = None"
    by (simp_all add: demo_world_def)
  have p3: "\<not> denied ?w (target_path ?d ''sentiment.marshal.3'')"
    and pm: "\<not> denied ?w (target_path ?d ''sentiment.marshal'')"
    by (simp_all add: demo_world_def denied_def)
  have b: "files ?w (backup_path ?d ''sentiment.marshal.3'') = Some ''model:orig''"
    by (simp add: demo_world_def slot_paths dir_prefix_def)
  have m: "''sentiment.marshal.3'' \<in> set slot_names" by (simp add: slot_names_def)
  from restore_copies_existing_backups [OF surjective_pairing, of "demo_world [] []" ?d] n3 nm
  have 1: "error (snd (restore_from_backup (demo_world [] []) ?d)) = Some ''no .backup_gui files found''"
    by (simp add: slot_names_def)
  have e: "\<exists>f \<in> set slot_names. files ?w (backup_path ?d f) \<noteq> None"
    using b m by auto
  have p: "\<forall>f \<in> set slot_names. \<not> denied ?w (target_path ?d f)"
    using p3 pm by (simp add: slot_names_def)
  from restore_copies_existing_backups [OF surjective_pairing, of ?w ?d] e p m
  have "files (fst (restore_from_backup ?w ?d)) (target_path ?d ''sentiment.marshal.3'') =
     (case files ?w (backup_path ?d ''sentiment.marshal.3'') of
               Some b \<Rightarrow> Some b | None \<Rightarrow> files ?w (target_path ?d ''sentiment.marshal.3''))"
    by blast
  with b have 2: "files (fst (restore_from_backup ?w ?d)) (target_path ?d ''sentiment.marshal.3'')
     = Some ''model:orig''" by simp
  from n3 nm 1 b p3 pm 2 show ?thesis by simp
qed

text \<open>
  The claim as stated fails where one slot has a backup and the other has none: the
  slot \<^verbatim>\<open>sentiment.marshal.3\<close>, the only target of a deployment without the legacy flag,
  exists without a backup, and the call succeeds with no error, having restored the
  other slot.
\<close>

theorem restore_succeeds_with_missing_backup_counterexample:
  "get_effective_model_filenames demo_env False = [''sentiment.marshal.3''] \<and>
   files (demo_world [(''/site/snownlp/sentiment/sentiment.marshal.backup_gui'', ''model:orig''), (''/site/snownlp/sentiment/sentiment.marshal'', ''model:legacy''), (''/site/snownlp/sentiment/sentiment.marshal.3'', ''model:cur'')] []) (target_path ''/site/snownlp/sentiment'' ''sentiment.marshal.3'') = Some ''model:cur'' \<and>
   files (demo_world [(''/site/snownlp/sentiment/sentiment.marshal.backup_gui'', ''model:orig''), (''/site/snownlp/sentiment/sentiment.marshal'', ''model:legacy''), (''/site/snownlp/sentiment/sentiment.marshal.3'', ''model:cur'')] []) (backup_path ''/site/snownlp/sentiment'' ''sentiment.marshal.3'') = None \<and>
   success (snd (restore_from_backup (demo_world [(''/site/snownlp/sentiment/sentiment.marshal.backup_gui'', ''model:orig''), (''/site/snownlp/sentiment/sentiment.marshal'', ''model:legacy''), (''/site/snownlp/sentiment/sentiment.marshal.3'', ''model:cur'')] []) ''/site/snownlp/sentiment'')) \<and>
   error (snd (restore_from_backup (demo_world [(''/site/snownlp/sentiment/sentiment.marshal.backup_gui'', ''model:orig''), (''/site/snownlp/sentiment/sentiment.marshal'', ''model:legacy''), (''/site/snownlp/sentiment/sentiment.marshal.3'', ''model:cur'')] []) ''/site/snownlp/sentiment'')) = None \<and>
   replaced_files (snd (restore_from_backup (demo_world [(''/site/snownlp/sentiment/sentiment.marshal.backup_gui'', ''model:orig''), (''/site/snownlp/sentiment/sentiment.marshal'', ''model:legacy''), (''/site/snownlp/sentiment/sentiment.marshal.3'', ''model:cur'')] []) ''/site/snownlp/sentiment'')) = [''sentiment.marshal''] \<and>
   files (fst (restore_from_backup (demo_world [(''/site/snownlp/sentiment/sentiment.marshal.backup_gui'', ''model:orig''), (''/site/snownlp/sentiment/sentiment.marshal'', ''model:legacy''), (''/site/snownlp/sentiment/sentiment.marshal.3'', ''model:cur'')] []) ''/site/snownlp/sentiment'')) (target_path ''/site/snownlp/sentiment'' ''sentiment.marshal.3'')
     = Some ''model:cur''"
  by code_simp

section \<open>The catalog\<close>

lemma dict_set_fresh: "k \<notin> fst ` set acc \<Longrightarrow> dict_set acc k v = acc @ [(k, v)]"
  by (induction acc) auto

lemma valid_fold:
  "distinct (map fst ms) \<Longrightarrow> fst ` set acc \<inter> fst ` set ms = {} \<Longrightarrow>
   fold (\<lambda>(model_id, info) valid_models.
             if path_exists w (path info) then dict_set valid_models model_id info
             else valid_models) ms acc
   = acc @ filter (\<lambda>(model_id, info). path_exists w (path info)) ms"
proof (induction ms arbitrary: acc)
  case Nil
  then show ?case by simp
next
  case (Cons m ms)
  obtain k info where m: "m = (k, info)" by (cases m)
  have fresh: "k \<notin> fst ` set acc" using Cons.prems(2) m by auto
  show ?case
  proof (cases "path_exists w (path info)")
    case True
    have d: "fst ` set (acc @ [(k, info)]) \<inter> fst ` set ms = {}"
      using Cons.prems m by (auto simp: image_iff)
    from Cons.IH [OF _ d] Cons.prems(1) True m fresh show ?thesis
      by (simp add: dict_set_fresh)
  next
    case False
    have d: "fst ` set acc \<inter> fst ` set ms = {}" using Cons.prems(2) by auto
    from Cons.IH [OF _ d] Cons.prems(1) False m show ?thesis by simp
  qed
qed

lemma valid_models_filter:
  "distinct (map fst ms) \<Longrightarrow>
   valid_models_of w ms = filter (\<lambda>(model_id, info). path_exists w (path info)) ms"
  using valid_fold [of ms "[]" w] by (simp add: valid_models_of_def)

lemma length_filter_same: "length (filter P xs) = length xs \<longleftrightarrow> filter P xs = xs"
proof (induction xs)
  case Nil
  then show ?case by simp
next
  case (Cons x xs)
  have "length (filter P xs) \<noteq> Suc (length xs)"
    using length_filter_le [of P xs] by linarith
  with Cons show ?case by auto
qed

text \<open>
  C6 as amended. \<^verbatim>\<open>get_model_list\<close> filters the map the manager holds in memory (read
  from the document when the manager was created; the listing does not read the
  document again) and returns exactly its entries whose \<^verbatim>\<open>path\<close> exists at the time of
  the listing. When nothing was filtered out, the store and the manager are unchanged.
  When at least one entry was filtered out, the manager's map becomes the filtered map
  and, unless the write is refused, the document is rewritten from it, so that it is
  the dump of the filtered map and nothing else in the store changes.
\<close>

theorem listing_filters_memory_map:
  assumes "distinct (map fst (models mgr))"
    and "get_model_list J w mgr = (w', mgr', listed)"
  shows "listed = filter (\<lambda>(model_id, info). path_exists w (path info)) (models mgr) \<and>
     models mgr' = listed \<and> config_file mgr' = config_file mgr \<and>
     (listed = models mgr \<longrightarrow> w' = w) \<and>
     (listed \<noteq> models mgr \<and> \<not> denied w (config_file mgr) \<longrightarrow>
        files w' (config_file mgr) = Some (json_dump J listed) \<and>
        load_models J w' (config_file mgr) = (case json_load J (json_dump J listed) of None \<Rightarrow> [] | Some m \<Rightarrow> m) \<and>
        (\<forall>q. q \<noteq> config_file mgr \<longrightarrow> files w' q = files w q))"
  using assms(2) valid_models_filter [OF assms(1), of w]
    length_filter_same [of "\<lambda>(model_id, info). path_exists w (path info)" "models mgr"]
  by (auto simp: get_model_list_def Let_def save_models_def put_file_def load_models_def
      split: if_splits)

theorem listing_filters_memory_map_witness:
  "distinct (map fst (models \<lparr>config_file = ''model_history.json'',
       models = [(''a'', demo_info ''/m/a.marshal''), (''b'', demo_info ''/m/b.marshal'')]\<rparr>)) \<and>
   \<not> denied (demo_world [(''/m/a.marshal'', ''model:a''), (''model_history.json'', ''doc-ab'')] []) ''model_history.json'' \<and>
   snd (snd (get_model_list demo_json
       (demo_world [(''/m/a.marshal'', ''model:a''), (''model_history.json'', ''doc-ab'')] [])
       \<lparr>config_file = ''model_history.json'',
        models = [(''a'', demo_info ''/m/a.marshal''), (''b'', demo_info ''/m/b.marshal'')]\<rparr>))
     = [(''a'', demo_info ''/m/a.marshal'')] \<and>
   files (fst (get_model_list demo_json
       (demo_world [(''/m/a.marshal'', ''model:a''), (''model_history.json'', ''doc-ab'')] [])
       \<lparr>config_file = ''model_history.json'',
        models = [(''a'', demo_info ''/m/a.marshal''), (''b'', demo_info ''/m/b.marshal'')]\<rparr>))
     ''model_history.json'' = Some ''ids:a;''"
proof -
  let ?m = "\<lparr>config_file = ''model_history.json'',
       models = [(''a'', demo_info ''/m/a.marshal''), (''b'', demo_info ''/m/b.marshal'')]\<rparr>"
  let ?w = "demo_world [(''/m/a.marshal'', ''model:a''), (''model_history.json'', ''doc-ab'')] []"
  let ?r = "get_model_list demo_json ?w ?m"
  have d: "distinct (map fst (models ?m))" by simp
  have p: "\<not> denied ?w ''model_history.json''" by (simp add: demo_world_def denied_def)
  have r: "?r = (fst ?r, fst (snd ?r), snd (snd ?r))" by simp
  have f: "filter (\<lambda>(model_id, info). path_exists ?w (path info)) (models ?m)
      = [(''a'', demo_info ''/m/a.marshal'')]"
    by (simp add: path_exists_def demo_world_def demo_info_def)
  note th = listing_filters_memory_map [OF d r]
  from th f have 1: "snd (snd ?r) = [(''a'', demo_info ''/m/a.marshal'')]" by simp
  then have "snd (snd ?r) \<noteq> models ?m" by simp
  with th p have "files (fst ?r) ''model_history.json'' = Some (json_dump demo_json (snd (snd ?r)))"
    by simp
  with 1 have 2: "files (fst ?r) ''model_history.json'' = Some ''ids:a;''"
    by (simp add: demo_json_def)
  from d p 1 2 show ?thesis by blast
qed

text \<open>
  The claim as stated fails where the document changed after the manager read it: the
  manager was created from the document with the model \<^verbatim>\<open>a\<close>, the document then lists
  \<^verbatim>\<open>a\<close> and \<^verbatim>\<open>b\<close>, both files exist, and the listing returns \<^verbatim>\<open>a\<close> alone, whereas
  reading the document again would return both.
\<close>

theorem listing_does_not_reread_counterexample:
  "models (new_manager demo_json
       (demo_world [(''model_history.json'', ''doc-a''), (''/m/a.marshal'', ''model:a'')] [])
       ''model_history.json'') = [(''a'', demo_info ''/m/a.marshal'')] \<and>
   snd (snd (get_model_list demo_json
       (demo_world [(''model_history.json'', ''doc-ab''), (''/m/a.marshal'', ''model:a''),
                    (''/m/b.marshal'', ''model:b'')] [])
       (new_manager demo_json
          (demo_world [(''model_history.json'', ''doc-a''), (''/m/a.marshal'', ''model:a'')] [])
          ''model_history.json'')))
     = [(''a'', demo_info ''/m/a.marshal'')] \<and>
   spec_list demo_json
       (demo_world [(''model_history.json'', ''doc-ab''), (''/m/a.marshal'', ''model:a''),
                    (''/m/b.marshal'', ''model:b'')] [])
       (new_manager demo_json
          (demo_world [(''model_history.json'', ''doc-a''), (''/m/a.marshal'', ''model:a'')] [])
          ''model_history.json'')
     = [(''a'', demo_info ''/m/a.marshal''), (''b'', demo_info ''/m/b.marshal'')]"
  by code_simp

text \<open>
  C10. \<^verbatim>\<open>update_model\<close> with an id that is not in the catalog changes nothing: the
  manager's map is as before (no entry added or modified), the store is as before (the
  document is not rewritten), and the call returns normally.
\<close>

theorem update_unknown_id_is_noop:
  assumes "model_id \<notin> fst ` set (models mgr)"
  shows "update_model J w mgr model_id updates = (w, mgr)"
proof -
  have "map_of (models mgr) model_id = None"
    using assms by (simp add: map_of_eq_None_iff)
  then show ?thesis by (simp add: update_model_def)
qed

theorem update_unknown_id_is_noop_witness:
  "''zz'' \<notin> fst ` set (models \<lparr>config_file = ''model_history.json'',
       models = [(''a'', demo_info ''/m/a.marshal'')]\<rparr>) \<and>
   update_model demo_json (demo_world [] [])
     \<lparr>config_file = ''model_history.json'', models = [(''a'', demo_info ''/m/a.marshal'')]\<rparr>
     ''zz'' [Set_name ''renamed'']
   = (demo_world [] [],
      \<lparr>config_file = ''model_history.json'', models = [(''a'', demo_info ''/m/a.marshal'')]\<rparr>)"
proof -
  have h: "''zz'' \<notin> fst ` set (models \<lparr>config_file = ''model_history.json'',
       models = [(''a'', demo_info ''/m/a.marshal'')]\<rparr>)" by simp
  from update_unknown_id_is_noop [OF h, of demo_json "demo_world [] []" "[Set_name ''renamed'']"] h
  show ?thesis by blast
qed

section \<open>Ranking\<close>

lemma py_sort_reverse_mset: "mset (py_sort_reverse k xs) = mset xs"
  by (simp add: py_sort_reverse_def)

lemma py_sort_reverse_sorted:
  "sorted_wrt (\<lambda>a b. k a \<ge> k b) (py_sort_reverse k xs)"
proof -
  have "sorted (map k (sort_key k (rev xs)))" by simp
  then have "sorted_wrt (\<lambda>a b. k a \<le> k b) (sort_key k (rev xs))"
    by (simp add: sorted_map)
  then show ?thesis
    by (simp add: py_sort_reverse_def sorted_wrt_rev)
qed

lemma py_sort_reverse_stable:
  "filter (\<lambda>x. k x = q) (py_sort_reverse k xs) = filter (\<lambda>x. k x = q) xs"
  by (simp add: py_sort_reverse_def rev_filter [symmetric] sort_key_stable)

lemma ranking_of_file_results:
  "sorted_wrt (\<lambda>a b. accuracy (snd a) \<ge> accuracy (snd b)) (rank_model_comparison results) \<and>
   (\<forall>q. filter (\<lambda>x. accuracy (snd x) = q) (rank_model_comparison results)
        = filter (\<lambda>x. accuracy (snd x) = q)
            (concat (map (\<lambda>(nm, data). case data of None \<Rightarrow> [] | Some d \<Rightarrow> [(nm, d)]) results)))"
  by (simp add: rank_model_comparison_def py_sort_reverse_sorted py_sort_reverse_stable)

text \<open>
  C5. The ranking of \<^verbatim>\<open>compare_models_worker\<close> is a permutation of the collected
  results, descending by accuracy, in which results of equal accuracy keep their input
  order (the results of any one accuracy are the same list before and after), and the
  best model reported is the first entry of the ranked list: a result of greatest
  accuracy, the first such in the input. The witness ranks A, B, C with the accuracies
  4/5, 8/10 and 3/5 as A, B, C. (\<open>ranking_of_file_results\<close> says the same of the pairs
  \<^verbatim>\<open>model_comparison_worker\<close> sorts.)
\<close>

theorem ranking_is_stable_descending:
  "mset (rank_compare_models results) = mset results \<and>
   sorted_wrt (\<lambda>a b. accuracy a \<ge> accuracy b) (rank_compare_models results) \<and>
   (\<forall>q. filter (\<lambda>r. accuracy r = q) (rank_compare_models results)
        = filter (\<lambda>r. accuracy r = q) results) \<and>
   (results = [] \<longrightarrow> best_model (rank_compare_models results) = None) \<and>
   (results \<noteq> [] \<longrightarrow>
      (\<exists>r. best_model (rank_compare_models results) = Some r \<and>
           r = hd (rank_compare_models results) \<and> r \<in> set results \<and>
           (\<forall>x \<in> set results. accuracy x \<le> accuracy r) \<and>
           r = hd (filter (\<lambda>x. accuracy x = accuracy r) results)))"
proof -
  let ?rk = "rank_compare_models results"
  have m: "mset ?rk = mset results"
    by (simp add: rank_compare_models_def py_sort_reverse_mset)
  have s: "sorted_wrt (\<lambda>a b. accuracy a \<ge> accuracy b) ?rk"
    by (simp add: rank_compare_models_def py_sort_reverse_sorted)
  have st: "filter (\<lambda>r. accuracy r = q) ?rk = filter (\<lambda>r. accuracy r = q) results" for q
    by (simp add: rank_compare_models_def py_sort_reverse_stable)
  have e: "best_model ?rk = None" if "results = []"
    using that by (simp add: rank_compare_models_def py_sort_reverse_def best_model_def)
  have b: "\<exists>r. best_model ?rk = Some r \<and> r = hd ?rk \<and> r \<in> set results \<and>
           (\<forall>x \<in> set results. accuracy x \<le> accuracy r) \<and>
           r = hd (filter (\<lambda>x. accuracy x = accuracy r) results)" if ne: "results \<noteq> []"
  proof -
    have "?rk \<noteq> []" using m ne by (metis mset_zero_iff)
    then obtain r rest where rk: "?rk = r # rest" by (cases ?rk) auto
    have set: "set ?rk = set results" using m by (metis set_mset_mset)
    have 1: "best_model ?rk = Some r" "r = hd ?rk" using rk by (simp_all add: best_model_def)
    have 2: "r \<in> set results" using set rk by auto
    have 3: "\<forall>x \<in> set results. accuracy x \<le> accuracy r"
    proof
      fix x assume "x \<in> set results"
      then have "x \<in> set (r # rest)" using set rk by simp
      with s rk show "accuracy x \<le> accuracy r" by auto
    qed
    have "hd (filter (\<lambda>x. accuracy x = accuracy r) ?rk) = r" using rk by simp
    then have 4: "r = hd (filter (\<lambda>x. accuracy x = accuracy r) results)" using st by simp
    from 1 2 3 4 show ?thesis by blast
  qed
  from m s st e b show ?thesis by blast
qed

theorem ranking_is_stable_descending_witness:
  "[demo_result ''A'' 4 5, demo_result ''B'' 8 10, demo_result ''C'' 3 5] \<noteq> [] \<and>
   accuracy (demo_result ''A'' 4 5) = accuracy (demo_result ''B'' 8 10) \<and>
   accuracy (demo_result ''C'' 3 5) < accuracy (demo_result ''A'' 4 5) \<and>
   rank_compare_models [demo_result ''A'' 4 5, demo_result ''B'' 8 10, demo_result ''C'' 3 5]
     = [demo_result ''A'' 4 5, demo_result ''B'' 8 10, demo_result ''C'' 3 5] \<and>
   rank_compare_models [demo_result ''C'' 3 5, demo_result ''B'' 8 10, demo_result ''A'' 4 5]
     = [demo_result ''B'' 8 10, demo_result ''A'' 4 5, demo_result ''C'' 3 5] \<and>
   best_model (rank_compare_models
       [demo_result ''A'' 4 5, demo_result ''B'' 8 10, demo_result ''C'' 3 5])
     = Some (demo_result ''A'' 4 5)"
proof -
  let ?xs = "[demo_result ''A'' 4 5, demo_result ''B'' 8 10, demo_result ''C'' 3 5]"
  have ne: "?xs \<noteq> []" by simp
  have a: "accuracy (demo_result ''A'' 4 5) = accuracy (demo_result ''B'' 8 10)"
    and c: "accuracy (demo_result ''C'' 3 5) < accuracy (demo_result ''A'' 4 5)"
    by (simp_all add: demo_result_def accuracy_of_def)
  have r1: "rank_compare_models ?xs = ?xs" by code_simp
  have r2: "rank_compare_models [demo_result ''C'' 3 5, demo_result ''B'' 8 10, demo_result ''A'' 4 5]
     = [demo_result ''B'' 8 10, demo_result ''A'' 4 5, demo_result ''C'' 3 5]" by code_simp
  from ranking_is_stable_descending [of ?xs] ne
  obtain r where "best_model (rank_compare_models ?xs) = Some r" "r = hd (rank_compare_models ?xs)"
    by blast
  then have b: "best_model (rank_compare_models ?xs) = Some (demo_result ''A'' 4 5)"
    using r1 by simp
  from ne a c r1 r2 b show ?thesis by blast
qed

section \<open>Sandboxed evaluation\<close>



















text \<open>
  It fails as well for a read-only candidate although the temp backups were taken:
  \<^verbatim>\<open>shutil.copy2\<close> gives the live slots the permission of the candidate, the copy of the
  restore onto the first slot is refused, \<^verbatim>\<open>restore_model\<close> logs the exception, and both
  slots stay on the candidate.
\<close>

lemma sandbox_readonly_candidate_stays:
  "snd (backup_current_model demo_env (demo_world [(''/m/new.marshal'', ''model:new''), (''/site/snownlp/sentiment/sentiment.marshal'', ''model:legacy''), (''/site/snownlp/sentiment/sentiment.marshal.3'', ''model:old'')] [''/m/new.marshal''])) \<noteq> None \<and>
   readonly (demo_world [(''/m/new.marshal'', ''model:new''), (''/site/snownlp/sentiment/sentiment.marshal'', ''model:legacy''), (''/site/snownlp/sentiment/sentiment.marshal.3'', ''model:old'')] [''/m/new.marshal'']) ''/m/new.marshal'' \<and>
   files (demo_world [(''/m/new.marshal'', ''model:new''), (''/site/snownlp/sentiment/sentiment.marshal'', ''model:legacy''), (''/site/snownlp/sentiment/sentiment.marshal.3'', ''model:old'')] [''/m/new.marshal'']) (path_join ''/site/snownlp/sentiment'' ''sentiment.marshal'') = Some ''model:legacy'' \<and>
   files (fst (test_model_worker demo_env demo_bench_ok (demo_world [(''/m/new.marshal'', ''model:new''), (''/site/snownlp/sentiment/sentiment.marshal'', ''model:legacy''), (''/site/snownlp/sentiment/sentiment.marshal.3'', ''model:old'')] [''/m/new.marshal'']) ''/m/new.marshal''))
     (path_join ''/site/snownlp/sentiment'' ''sentiment.marshal'') = Some ''model:new'' \<and>
   files (demo_world [(''/m/new.marshal'', ''model:new''), (''/site/snownlp/sentiment/sentiment.marshal'', ''model:legacy''), (''/site/snownlp/sentiment/sentiment.marshal.3'', ''model:old'')] [''/m/new.marshal'']) (path_join ''/site/snownlp/sentiment'' ''sentiment.marshal.3'') = Some ''model:old'' \<and>
   files (fst (test_model_worker demo_env demo_bench_ok (demo_world [(''/m/new.marshal'', ''model:new''), (''/site/snownlp/sentiment/sentiment.marshal'', ''model:legacy''), (''/site/snownlp/sentiment/sentiment.marshal.3'', ''model:old'')] [''/m/new.marshal'']) ''/m/new.marshal''))
     (path_join ''/site/snownlp/sentiment'' ''sentiment.marshal.3'') = Some ''model:new''"
  by code_simp

end
